theory Spec2Isabelle
  imports Main
begin

section \<open>Strings of the source language\<close>

text \<open>
  A string of the source is modelled as a \<^typ>\<open>string\<close>: a list of characters whose
  codes are below 256. The operations below are the string methods that
  \<^verbatim>\<open>useGraph.tsx\<close> calls, with the results they have on such strings.
\<close>

definition newline :: char where
  "newline = CHR 0x0A"

text \<open>The class \<^verbatim>\<open>\w\<close> of a regular expression without the unicode flag: \<^verbatim>\<open>[A-Za-z0-9_]\<close>.\<close>

definition is_word_char :: "char \<Rightarrow> bool" where
  "is_word_char c =
     (let n = (of_char c :: nat) in
        (48 \<le> n \<and> n \<le> 57) \<or> (65 \<le> n \<and> n \<le> 90) \<or> n = 95 \<or> (97 \<le> n \<and> n \<le> 122))"

text \<open>The class \<^verbatim>\<open>[\w-]\<close> of \<^verbatim>\<open>codeBlockRegex\<close>.\<close>

definition is_tag_char :: "char \<Rightarrow> bool" where
  "is_tag_char c = (is_word_char c \<or> c = CHR ''-'')"

text \<open>
  The characters that \<^verbatim>\<open>String.prototype.trim\<close> removes (white space and line
  terminators), as far as their codes are below 256: tab, line feed, vertical tab, form feed,
  carriage return, space and the no-break space.
\<close>

definition is_js_space :: "char \<Rightarrow> bool" where
  "is_js_space c =
     (let n = (of_char c :: nat) in (9 \<le> n \<and> n \<le> 13) \<or> n = 32 \<or> n = 160)"

definition js_trim :: "string \<Rightarrow> string" where
  "js_trim s = rev (dropWhile is_js_space (rev (dropWhile is_js_space s)))"

text \<open>
  \<^verbatim>\<open>s.slice(b, e)\<close> and \<^verbatim>\<open>s.slice(b)\<close>: a negative offset counts from the end of the
  string, every offset is clamped to the string, and an empty range gives the empty string.
\<close>

definition slice_pos :: "string \<Rightarrow> int \<Rightarrow> nat" where
  "slice_pos s i =
     (if i < 0 then nat (max (int (length s) + i) 0) else min (nat i) (length s))"

definition js_slice :: "string \<Rightarrow> int \<Rightarrow> int \<Rightarrow> string" where
  "js_slice s b e = take (slice_pos s e - slice_pos s b) (drop (slice_pos s b) s)"

definition js_slice_from :: "string \<Rightarrow> int \<Rightarrow> string" where
  "js_slice_from s b = drop (slice_pos s b) s"

text \<open>
  \<^verbatim>\<open>s.indexOf(p)\<close>: the offset of the first occurrence of \<^verbatim>\<open>p\<close> in \<^verbatim>\<open>s\<close>, counted
  from \<open>k\<close> by \<open>index_from\<close>, and \<open>-1\<close> when there is none.
\<close>

fun index_from :: "nat \<Rightarrow> string \<Rightarrow> string \<Rightarrow> int" where
  "index_from k p [] = (if p = [] then int k else - 1)"
| "index_from k p (c # cs) =
     (if take (length p) (c # cs) = p then int k else index_from (Suc k) p cs)"

definition indexOf :: "string \<Rightarrow> string \<Rightarrow> int" where
  "indexOf s p = index_from 0 p s"

section \<open>Fence stripping\<close>

text \<open>
  \<^verbatim>\<open>codeBlockRegex = /^```[\w-]*\n([\s\S]*?)\n```$/\<close>, as \<^verbatim>\<open>text.match\<close> applies it.
  The expression has no flag, so \<^verbatim>\<open>^\<close> and \<^verbatim>\<open>$\<close> are the two ends of the text. After the
  three backquotes the greedy \<^verbatim>\<open>[\w-]*\<close> takes the longest run of tag characters; a shorter
  run cannot match, since the character after it would be a tag character and not the line
  feed the expression asks for. The lazy group then has to stop exactly four characters before
  the end, where the closing line feed and three backquotes are. The result is the text of
  group 1, and \<open>None\<close> where \<^verbatim>\<open>match\<close> gives \<^verbatim>\<open>null\<close>.
\<close>

definition codeBlockRegex :: "string \<Rightarrow> string option" where
  "codeBlockRegex text =
     (if take 3 text = ''```'' then
        (case dropWhile is_tag_char (drop 3 text) of
           [] \<Rightarrow> None
         | c # rest \<Rightarrow>
             if c = newline \<and> 4 \<le> length rest
                \<and> drop (length rest - 4) rest = newline # ''```''
             then Some (take (length rest - 4) rest)
             else None)
      else None)"

definition removeCodeBlockFormatting :: "string \<Rightarrow> string" where
  "removeCodeBlockFormatting text =
     (if text = [] then text
      else (case codeBlockRegex text of
              Some group1 \<Rightarrow> js_trim group1
            | None \<Rightarrow> text))"

text \<open>
  A fenced code block as the specification describes it: a leading line of three backquotes
  and an optional language tag, the code, and a trailing line of three backquotes.
\<close>

definition fenced :: "string \<Rightarrow> string \<Rightarrow> string" where
  "fenced tag c = ''```'' @ tag @ [newline] @ c @ [newline] @ ''```''"

definition is_fenced :: "string \<Rightarrow> bool" where
  "is_fenced text = (\<exists>tag c. (\<forall>x \<in> set tag. is_tag_char x) \<and> text = fenced tag c)"

section \<open>The document model\<close>

text \<open>
  \<^verbatim>\<open>ArtifactMarkdownV3 | ArtifactCodeV3\<close>: the two variants of a content snapshot. The
  field \<^verbatim>\<open>type\<close> of the source is the constructor: \<^verbatim>\<open>"text"\<close> for \<open>Markdown\<close> and
  \<^verbatim>\<open>"code"\<close> for \<open>Code\<close>.
\<close>

datatype content =
    Markdown (index: nat) (title: string) (fullMarkdown: string)
  | Code (index: nat) (title: string) (code: string) (language: string)

definition content_type :: "content \<Rightarrow> string" where
  "content_type c = (case c of Markdown _ _ _ \<Rightarrow> ''text'' | Code _ _ _ _ \<Rightarrow> ''code'')"

record artifact =
  currentIndex :: nat
  contents :: "content list"

text \<open>\<^verbatim>\<open>TextHighlight\<close> and \<^verbatim>\<open>Highlight\<close>, with the fields the hook reads.\<close>

record text_highlight =
  hl_fullMarkdown :: string
  markdownBlock :: string

record highlight =
  startCharIndex :: int
  endCharIndex :: int

text \<open>
  \<^verbatim>\<open>ArtifactToolResponse\<close> and \<^verbatim>\<open>RewriteArtifactMetaToolResponse\<close>. An optional field
  that is absent is \<open>None\<close>.
\<close>

record tool_response =
  tr_artifact :: "string option"
  tr_title :: "string option"
  tr_language :: "string option"
  tr_type :: "string option"

record rewrite_meta =
  meta_type :: string
  meta_title :: string
  programmingLanguage :: "string option"

text \<open>\<^verbatim>\<open>GraphInput\<close>: the two request parameters that the fold itself reads.\<close>

record graph_input =
  highlighted :: "highlight option"
  portLanguage :: "string option"

record use_graph_input =
  userId :: string
  threadId :: "string option"
  assistantId :: "string option"

text \<open>A chat message: its id, its content, its tool calls and the shared-run URL of its
  response metadata (\<^verbatim>\<open>response_metadata?.langSmithRunURL\<close>).\<close>

record tool_call =
  tc_name :: string
  tc_sharedRunURL :: "string option"
  tc_id :: "string option"

record message =
  msg_id :: "string option"
  msg_content :: string
  tool_calls :: "tool_call list option"
  langSmithRunURL :: "string option"

text \<open>
  The payload \<^verbatim>\<open>chunk[1]\<close> of a streamed frame: a message chunk with its id, its content
  (the empty string when the chunk has none: the hook only tests the content for being falsy
  or appends it) and the arguments of its first tool-call chunk
  (\<^verbatim>\<open>tool_call_chunks?.[0]?.args\<close>).
\<close>

record payload =
  p_id :: "string option"
  p_content :: string
  p_args :: "string option"

datatype chunk = NoChunk | NoPayload | Payload payload

text \<open>
  A frame of the transport, \<^verbatim>\<open>chunk.data\<close> in the source: the objects \<^verbatim>\<open>data\<close>,
  \<^verbatim>\<open>data.metadata\<close> and \<^verbatim>\<open>data.data\<close> are there, every other field may be absent.
  \<open>output_args\<close> is \<^verbatim>\<open>data.output.tool_calls[0].args\<close>, \<open>None\<close> when there is no such
  tool call.
\<close>

record frame =
  run_id :: "string option"
  event :: string
  name :: "string option"
  langgraph_node :: string
  input_highlightedText :: "text_highlight option"
  data_chunk :: chunk
  output_args :: "rewrite_meta option"

text \<open>What the hook tells the outside: notifications, log lines and calls of collaborators.\<close>

datatype effect =
    Toast string string
  | ConsoleError string
  | StreamOpened string string
  | ShareRun string
  | SetThreadId string
  | SetCookie string

text \<open>
  What a state updater of the artifact has captured at the call of \<^verbatim>\<open>setArtifact\<close>: the
  constants of its frame and of the closure (the artifact, \<^verbatim>\<open>prevCurrentContent\<close>, the
  parsed tool call, the resolved type and language).
\<close>

datatype updater =
    Generated tool_response
  | HighlightedMarkdown artifact content
  | HighlightedCode artifact content
  | Rewritten artifact "content option" string
  | Themed artifact content string string

text \<open>
  The state of the hook (the four \<^verbatim>\<open>useState\<close> cells), the updaters of the artifact that
  React has queued and not run yet, and the effects so far.
\<close>

record hook_state =
  messages :: "message list"
  artifact :: "artifact option"
  selectedBlocks :: "text_highlight option"
  isStreaming :: bool
  pending :: "updater list"
  effects :: "effect list"

text \<open>The variables of one call of \<^verbatim>\<open>streamMessageV2\<close> (lines 119 to 160).\<close>

record stream_vars =
  runId :: string
  followupMessageId :: "string option"
  newArtifactIndex :: "nat option"
  rewriteArtifactMeta :: "rewrite_meta option"
  generateArtifactToolCallStr :: string
  updatedArtifactStartContent :: "string option"
  updatedArtifactRestContent :: "string option"
  isFirstUpdate :: bool
  newArtifactContent :: string
  highlightedText :: "text_highlight option"

text \<open>
  The helpers that the hook imports from outside the repository or whose result no property
  below depends on, as parameters.
\<close>

record deps =
  parsePartialJson :: "string \<Rightarrow> tool_response option"
  replaceOrInsertMessageChunk :: "message list \<Rightarrow> payload option \<Rightarrow> message list"
  reverseCleanContent :: "string \<Rightarrow> string"

text \<open>Truthiness of an optional string, and a string value inside a template or a \<^verbatim>\<open>+=\<close>.\<close>

definition truthy :: "string option \<Rightarrow> bool" where
  "truthy x = (case x of None \<Rightarrow> False | Some s \<Rightarrow> s \<noteq> [])"

definition show_str :: "string option \<Rightarrow> string" where
  "show_str x = (case x of None \<Rightarrow> ''undefined'' | Some s \<Rightarrow> s)"

definition toast :: "string \<Rightarrow> string \<Rightarrow> hook_state \<Rightarrow> hook_state" where
  "toast t d h = h\<lparr>effects := effects h @ [Toast t d]\<rparr>"

definition console_error :: "string \<Rightarrow> hook_state \<Rightarrow> hook_state" where
  "console_error m h = h\<lparr>effects := effects h @ [ConsoleError m]\<rparr>"

section \<open>Helpers of the repository that are not among the sources\<close>

text \<open>
  Modelled from the spec: \<^verbatim>\<open>isArtifactMarkdownContent\<close> and \<^verbatim>\<open>isArtifactCodeContent\<close> of
  \<^verbatim>\<open>lib/artifact_content_types\<close> are missing. The spec says of them that "the
  currently-active snapshot is the text variant", respectively "the code variant".
\<close>

definition isArtifactMarkdownContent :: "content \<Rightarrow> bool" where
  "isArtifactMarkdownContent c = (case c of Markdown _ _ _ \<Rightarrow> True | Code _ _ _ _ \<Rightarrow> False)"

definition isArtifactCodeContent :: "content \<Rightarrow> bool" where
  "isArtifactCodeContent c = (case c of Markdown _ _ _ \<Rightarrow> False | Code _ _ _ _ \<Rightarrow> True)"

text \<open>
  Modelled from the spec: \<^verbatim>\<open>createNewGeneratedArtifactFromTool\<close> of \<^verbatim>\<open>use-graph/utils\<close>
  is missing. The spec: from a parsed value with a content payload and a resolvable type (and,
  for code, a resolvable language) it makes the one snapshot, at index 1, of a brand-new
  artifact: of type code with the language and the payload as its code, or of type text with
  the payload as its markdown. The hook reads \<^verbatim>\<open>undefined\<close> (here \<open>None\<close>) as no snapshot.
\<close>

definition createNewGeneratedArtifactFromTool :: "tool_response \<Rightarrow> content option" where
  "createNewGeneratedArtifactFromTool t =
     (let ttl = (case tr_title t of None \<Rightarrow> [] | Some x \<Rightarrow> x);
          body = (case tr_artifact t of None \<Rightarrow> [] | Some x \<Rightarrow> x)
      in if tr_type t = Some ''text'' then Some (Markdown 1 ttl body)
         else if tr_type t = Some ''code'' then
           (case tr_language t of
              None \<Rightarrow> None
            | Some l \<Rightarrow> if l = [] then None else Some (Code 1 ttl body l))
         else None)"

text \<open>
  Modelled from the spec: the snapshot updaters \<^verbatim>\<open>updateHighlightedMarkdown\<close>,
  \<^verbatim>\<open>updateHighlightedCode\<close> and \<^verbatim>\<open>updateRewrittenArtifact\<close> of \<^verbatim>\<open>use-graph/utils\<close> are
  missing. The spec: the document is "mutated by appending a new ContentSnapshot and
  repointing currentIndex"; an updater is called "to append/replace the in-flight snapshot at
  the reserved index", it materializes the text "as a brand-new snapshot appended at the
  reserved index, replacing any snapshot previously written at that index during this fold".
  So the first update of a fold (\<^verbatim>\<open>isFirstUpdate\<close>) appends the snapshot, and a later one
  replaces the snapshot of that index. The new snapshot of a span edit is of the variant of
  the previous one and keeps its title (and language); the new snapshot of a rewrite has the
  type and the title of the rewrite metadata and the resolved language.
\<close>

definition write_snapshot :: "artifact \<Rightarrow> content \<Rightarrow> bool \<Rightarrow> artifact" where
  "write_snapshot prevArtifact snap first =
     prevArtifact\<lparr>currentIndex := index snap,
       contents :=
         (if first then contents prevArtifact @ [snap]
          else map (\<lambda>c. if index c = index snap then snap else c) (contents prevArtifact))\<rparr>"

definition updateHighlightedMarkdown ::
  "artifact \<Rightarrow> string \<Rightarrow> nat \<Rightarrow> content \<Rightarrow> bool \<Rightarrow> artifact" where
  "updateHighlightedMarkdown prevArtifact txt newIndex prevCurrentContent first =
     write_snapshot prevArtifact (Markdown newIndex (title prevCurrentContent) txt) first"

definition updateHighlightedCode ::
  "artifact \<Rightarrow> string \<Rightarrow> nat \<Rightarrow> content \<Rightarrow> bool \<Rightarrow> artifact" where
  "updateHighlightedCode prevArtifact txt newIndex prevCurrentContent first =
     write_snapshot prevArtifact
       (case prevCurrentContent of
          Code _ t _ l \<Rightarrow> Code newIndex t txt l
        | Markdown _ t _ \<Rightarrow> Code newIndex t txt ''other'')
       first"

definition updateRewrittenArtifact ::
  "artifact \<Rightarrow> string \<Rightarrow> rewrite_meta \<Rightarrow> content option \<Rightarrow> nat \<Rightarrow> bool \<Rightarrow> string
     \<Rightarrow> artifact" where
  "updateRewrittenArtifact prevArtifact txt meta prevCurrentContent newIndex first lang =
     write_snapshot prevArtifact
       (if meta_type meta = ''code'' then Code newIndex (meta_title meta) txt lang
        else Markdown newIndex (meta_title meta) txt)
       first"

section \<open>One frame of the fold\<close>

text \<open>
  The frames are processed one after the other, each of them to its end before the next one is
  read. \<open>artifact h\<close> is the state cell; the \<^verbatim>\<open>artifact\<close> that the handlers test is the
  one of the closure, the value of the cell when \<^verbatim>\<open>streamMessageV2\<close> was called.

  A handler that writes the artifact passes \<^verbatim>\<open>setArtifact\<close> an updater function. React
  either runs the updater at the call (it does so when no other update is pending) or queues it
  and runs it at a later render. The updater is a closure: the variables that are declared
  inside the body of the loop are constants of its frame, but \<^verbatim>\<open>isFirstUpdate\<close>,
  \<^verbatim>\<open>updatedArtifactStartContent\<close>, \<^verbatim>\<open>updatedArtifactRestContent\<close>,
  \<^verbatim>\<open>newArtifactContent\<close>, \<^verbatim>\<open>newArtifactIndex\<close> and \<^verbatim>\<open>rewriteArtifactMeta\<close> are
  variables of the whole fold, and the updater reads them as they are when it runs, not as
  they were at the call. An \<open>updater\<close> is what the closure has captured; \<open>run_updater\<close>
  below is its body, on the variables of the time when it runs. The updater that
  \<^verbatim>\<open>setMessages\<close> gets reads only the message of its frame: whenever it runs it gives the
  same list, and the model applies it at the call.
\<close>

text \<open>
  What React does at a frame: whether it runs an updater of that frame at the call, and whether
  it renders (runs the queued updaters) after the body of the loop, before the next frame is
  read. A schedule gives this for the frame at each position.
\<close>

record timing =
  eager :: bool
  renders :: bool

type_synonym schedule = "nat \<Rightarrow> timing"

text \<open>
  The body of the loop of \<^verbatim>\<open>streamMessageV2\<close> either goes on with the next frame
  (\<open>Next\<close>: the end of the body, a \<^verbatim>\<open>continue\<close>, or an exception that the \<^verbatim>\<open>catch\<close> of
  the body logs) or leaves the function (\<open>Return\<close>: a \<^verbatim>\<open>return\<close> in the body).
\<close>

datatype 'a flow = Next 'a | Return 'a

fun flow_state :: "'a flow \<Rightarrow> 'a" where
  "flow_state (Next s) = s"
| "flow_state (Return s) = s"

fun map_flow :: "('a \<Rightarrow> 'b) \<Rightarrow> 'a flow \<Rightarrow> 'b flow" where
  "map_flow g (Next s) = Next (g s)"
| "map_flow g (Return s) = Return (g s)"

type_synonym fold_state = "hook_state \<times> stream_vars"

definition thrown :: "fold_state \<Rightarrow> fold_state flow" where
  "thrown s = Next (console_error ''Failed to parse stream chunk'' (fst s), snd s)"

text \<open>\<^verbatim>\<open>chunk?.[1]?.content\<close> and \<^verbatim>\<open>chunk?.[1]?.tool_call_chunks?.[0]?.args\<close>.\<close>

definition chunk_content :: "chunk \<Rightarrow> string" where
  "chunk_content c = (case c of Payload m \<Rightarrow> p_content m | _ \<Rightarrow> [])"

definition chunk_args :: "chunk \<Rightarrow> string option" where
  "chunk_args c = (case c of Payload m \<Rightarrow> p_args m | _ \<Rightarrow> None)"

text \<open>\<^verbatim>\<open>prev ?? artifact\<close> in the state updaters.\<close>

definition prev_or :: "artifact option \<Rightarrow> artifact \<Rightarrow> artifact" where
  "prev_or prev a = (case prev of None \<Rightarrow> a | Some p \<Rightarrow> p)"

text \<open>
  \<^verbatim>\<open>if (newArtifactIndex === undefined) newArtifactIndex = artifact.contents.length + 1\<close>,
  and the index that the updaters get: \<^verbatim>\<open>newArtifactIndex ?? artifact.contents.length + 1\<close>
  in the span edits, \<^verbatim>\<open>newArtifactIndex || artifact.contents.length + 1\<close> in the rewrites.
\<close>

definition reserve_index :: "artifact \<Rightarrow> stream_vars \<Rightarrow> stream_vars" where
  "reserve_index a v =
     (if newArtifactIndex v = None then v\<lparr>newArtifactIndex := Some (length (contents a) + 1)\<rparr>
      else v)"

definition index_or_default :: "artifact \<Rightarrow> stream_vars \<Rightarrow> nat" where
  "index_or_default a v =
     (case newArtifactIndex v of None \<Rightarrow> length (contents a) + 1 | Some n \<Rightarrow> n)"

definition index_or_falsy_default :: "artifact \<Rightarrow> stream_vars \<Rightarrow> nat" where
  "index_or_falsy_default a v =
     (case newArtifactIndex v of
        None \<Rightarrow> length (contents a) + 1
      | Some n \<Rightarrow> if n = 0 then length (contents a) + 1 else n)"

text \<open>The template \<^verbatim>\<open>`${updatedArtifactStartContent}${updatedArtifactRestContent}`\<close>.\<close>

definition materialized :: "stream_vars \<Rightarrow> string" where
  "materialized v =
     show_str (updatedArtifactStartContent v) @ show_str (updatedArtifactRestContent v)"

text \<open>
  The bodies of the updaters: lines 216 to 226 (\<open>Generated\<close>), 300 to 308
  (\<open>HighlightedMarkdown\<close>), 369 to 380 (\<open>HighlightedCode\<close>), 423 to 445 (\<open>Rewritten\<close>)
  and 497 to 517 (\<open>Themed\<close>). \<open>v\<close> are the variables of the fold when the updater runs and
  \<open>prev\<close> is the state cell then. The log line of the \<open>Rewritten\<close> updater without
  metadata is left out: the metadata, once there, is never taken away.
\<close>

fun run_updater :: "updater \<Rightarrow> stream_vars \<Rightarrow> artifact option \<Rightarrow> artifact option" where
  "run_updater (Generated newArtifactText) v prev =
     (case createNewGeneratedArtifactFromTool newArtifactText of
        None \<Rightarrow> None
      | Some c \<Rightarrow> Some \<lparr>currentIndex = 1, contents = [c]\<rparr>)"
| "run_updater (HighlightedMarkdown art pcc) v prev =
     Some (updateHighlightedMarkdown (prev_or prev art) (materialized v)
             (index_or_default art v) pcc (isFirstUpdate v))"
| "run_updater (HighlightedCode art pcc) v prev =
     Some (updateHighlightedCode (prev_or prev art)
             (removeCodeBlockFormatting (materialized v))
             (index_or_default art v) pcc (isFirstUpdate v))"
| "run_updater (Rewritten art pcc lang) v prev =
     (case rewriteArtifactMeta v of
        None \<Rightarrow> prev
      | Some meta \<Rightarrow>
          Some (updateRewrittenArtifact (prev_or prev art)
                  (if meta_type meta = ''code''
                   then removeCodeBlockFormatting (newArtifactContent v)
                   else newArtifactContent v)
                  meta pcc (index_or_falsy_default art v) (isFirstUpdate v) lang))"
| "run_updater (Themed art pcc artifactType lang) v prev =
     Some (updateRewrittenArtifact (prev_or prev art)
             (if artifactType = ''code''
              then removeCodeBlockFormatting (newArtifactContent v)
              else newArtifactContent v)
             \<lparr>meta_type = artifactType, meta_title = title pcc,
              programmingLanguage = Some lang\<rparr>
             (Some pcc) (index_or_falsy_default art v) (isFirstUpdate v) lang)"

text \<open>
  \<^verbatim>\<open>setArtifact(updater)\<close> with the variables \<open>v\<close> of the call: the updater runs at once
  when React is eager and nothing is queued, and is queued otherwise. A render runs the queued
  updaters in their order, each of them on the variables of the time of the render.
\<close>

definition setArtifact :: "timing \<Rightarrow> updater \<Rightarrow> stream_vars \<Rightarrow> hook_state \<Rightarrow> hook_state" where
  "setArtifact tm u v h =
     (if eager tm \<and> pending h = [] then h\<lparr>artifact := run_updater u v (artifact h)\<rparr>
      else h\<lparr>pending := pending h @ [u]\<rparr>)"

definition render :: "stream_vars \<Rightarrow> hook_state \<Rightarrow> hook_state" where
  "render v h =
     (if pending h = [] then h
      else h\<lparr>artifact := foldl (\<lambda>prev u. run_updater u v prev) (artifact h) (pending h),
             pending := []\<rparr>)"

definition rendered :: "fold_state \<Rightarrow> fold_state" where
  "rendered s = (render (snd s) (fst s), snd s)"

definition after_frame :: "timing \<Rightarrow> fold_state \<Rightarrow> fold_state" where
  "after_frame tm s = (if renders tm then rendered s else s)"

text \<open>Lines 177 to 189: the nodes \<^verbatim>\<open>generateFollowup\<close> and \<^verbatim>\<open>respondToQuery\<close>.\<close>

definition followup_delta :: "deps \<Rightarrow> frame \<Rightarrow> fold_state \<Rightarrow> fold_state flow" where
  "followup_delta d f s =
     (let h = fst s; v = snd s in
      case data_chunk f of
        NoChunk \<Rightarrow> thrown s
      | NoPayload \<Rightarrow>
          if \<not> truthy (followupMessageId v) then thrown s
          else Next (h\<lparr>messages := replaceOrInsertMessageChunk d (messages h) None\<rparr>, v)
      | Payload m \<Rightarrow>
          Next (h\<lparr>messages := replaceOrInsertMessageChunk d (messages h) (Some m)\<rparr>,
                if \<not> truthy (followupMessageId v) then v\<lparr>followupMessageId := p_id m\<rparr> else v))"

text \<open>Lines 191 to 228: the node \<^verbatim>\<open>generateArtifact\<close>.\<close>

definition artifact_guard :: "tool_response \<Rightarrow> bool" where
  "artifact_guard t =
     (truthy (tr_artifact t)
      \<and> (tr_type t = Some ''text'' \<or> (tr_type t = Some ''code'' \<and> truthy (tr_language t))))"

definition with_defaults :: "tool_response \<Rightarrow> tool_response" where
  "with_defaults parsed =
     parsed\<lparr>tr_title := Some (case tr_title parsed of None \<Rightarrow> [] | Some x \<Rightarrow> x),
            tr_type := Some (case tr_type parsed of None \<Rightarrow> [] | Some x \<Rightarrow> x)\<rparr>"

definition generateArtifact_delta ::
  "deps \<Rightarrow> timing \<Rightarrow> frame \<Rightarrow> fold_state \<Rightarrow> fold_state flow" where
  "generateArtifact_delta d tm f s =
     (let h = fst s;
          v = (snd s)\<lparr>generateArtifactToolCallStr :=
                 generateArtifactToolCallStr (snd s) @ show_str (chunk_args (data_chunk f))\<rparr>
      in case parsePartialJson d (generateArtifactToolCallStr v) of
           None \<Rightarrow> Next (h, v)
         | Some parsed \<Rightarrow>
             (let newArtifactText = with_defaults parsed
              in if artifact_guard newArtifactText
                 then Next (setArtifact tm (Generated newArtifactText) v h, v)
                 else Next (h, v)))"

text \<open>
  Lines 230 to 313: the node \<^verbatim>\<open>updateHighlightedText\<close>. \<open>a\<close> is the artifact of the
  closure and \<open>pcc\<close> is \<^verbatim>\<open>prevCurrentContent\<close>.
\<close>

definition init_text_span :: "text_highlight \<Rightarrow> stream_vars \<Rightarrow> stream_vars" where
  "init_text_span ht v =
     (let startIndexOfHighlightedText = indexOf (hl_fullMarkdown ht) (markdownBlock ht) in
      if updatedArtifactStartContent v = None \<and> updatedArtifactRestContent v = None then
        v\<lparr>updatedArtifactStartContent :=
             Some (js_slice (hl_fullMarkdown ht) 0 startIndexOfHighlightedText),
          updatedArtifactRestContent :=
             Some (js_slice_from (hl_fullMarkdown ht)
                     (startIndexOfHighlightedText + int (length (markdownBlock ht))))\<rparr>
      else v)"

definition append_text_delta :: "string \<Rightarrow> stream_vars \<Rightarrow> stream_vars" where
  "append_text_delta partialUpdatedContent v =
     (case (updatedArtifactStartContent v, updatedArtifactRestContent v) of
        (Some start, Some _) \<Rightarrow>
          v\<lparr>updatedArtifactStartContent := Some (start @ partialUpdatedContent)\<rparr>
      | _ \<Rightarrow> v)"

definition updateHighlightedText_delta ::
  "timing \<Rightarrow> artifact option \<Rightarrow> content option \<Rightarrow> frame \<Rightarrow> fold_state \<Rightarrow> fold_state flow" where
  "updateHighlightedText_delta tm a pcc f s =
     (let h = fst s; v = snd s in
      case data_chunk f of
        NoChunk \<Rightarrow> thrown s
      | NoPayload \<Rightarrow> Next s
      | Payload msg \<Rightarrow>
         (case a of
            None \<Rightarrow>
              Next (console_error ''No artifacts found when updating highlighted markdown...'' h, v)
          | Some art \<Rightarrow>
             (case highlightedText v of
                None \<Rightarrow> Next (toast ''Error'' ''No highlighted text found'' h, v)
              | Some ht \<Rightarrow>
                 (case pcc of
                    None \<Rightarrow> Return (toast ''Error'' ''Original artifact not found'' h, v)
                  | Some prevCurrentContent \<Rightarrow>
                      if \<not> isArtifactMarkdownContent prevCurrentContent then
                        Return (toast ''Error'' ''Received non markdown block update'' h, v)
                      else if p_content msg = [] then Next s
                      else
                        (let v1 = append_text_delta (p_content msg) (init_text_span ht v);
                             v2 = reserve_index art v1
                         in Next
                              (setArtifact tm (HighlightedMarkdown art prevCurrentContent) v2 h,
                               v2\<lparr>isFirstUpdate := False\<rparr>))))))"

text \<open>Lines 315 to 385: the node \<^verbatim>\<open>updateArtifact\<close>, the ranged code edit.\<close>

definition step_code_span :: "highlight \<Rightarrow> string \<Rightarrow> string \<Rightarrow> stream_vars \<Rightarrow> stream_vars" where
  "step_code_span hl prevCode partialUpdatedContent v =
     (if updatedArtifactStartContent v = None \<and> updatedArtifactRestContent v = None then
        v\<lparr>updatedArtifactStartContent := Some (js_slice prevCode 0 (startCharIndex hl)),
          updatedArtifactRestContent := Some (js_slice_from prevCode (endCharIndex hl))\<rparr>
      else
        v\<lparr>updatedArtifactStartContent :=
            Some (show_str (updatedArtifactStartContent v) @ partialUpdatedContent)\<rparr>)"

definition updateArtifact_delta ::
  "graph_input \<Rightarrow> timing \<Rightarrow> artifact option \<Rightarrow> content option \<Rightarrow> frame \<Rightarrow> fold_state
     \<Rightarrow> fold_state flow" where
  "updateArtifact_delta params tm a pcc f s =
     (let h = fst s; v = snd s in
      case a of
        None \<Rightarrow> Return (toast ''Error'' ''Original artifact not found'' h, v)
      | Some art \<Rightarrow>
         (case highlighted params of
            None \<Rightarrow> Return (toast ''Error'' ''No highlighted text found'' h, v)
          | Some hl \<Rightarrow>
             (let v1 = reserve_index art v;
                  partialUpdatedContent = chunk_content (data_chunk f)
              in if partialUpdatedContent = [] then Return (h, v1)
                 else
                  (case pcc of
                     None \<Rightarrow> Return (toast ''Error'' ''Original artifact not found'' h, v1)
                   | Some prevCurrentContent \<Rightarrow>
                      (case prevCurrentContent of
                         Markdown _ _ _ \<Rightarrow>
                           Return (toast ''Error'' ''Received non code block update'' h, v1)
                       | Code _ _ prevCode _ \<Rightarrow>
                          (let v2 = step_code_span hl prevCode partialUpdatedContent v1
                           in Next
                                (setArtifact tm (HighlightedCode art prevCurrentContent) v2 h,
                                 v2\<lparr>isFirstUpdate := False\<rparr>)))))))"

text \<open>
  Lines 387 to 450: the node \<^verbatim>\<open>rewriteArtifact\<close>, once the rewrite metadata is there.
  \<open>artifactLanguage\<close> is lines 403 to 417.
\<close>

definition artifactLanguage :: "graph_input \<Rightarrow> rewrite_meta \<Rightarrow> content option \<Rightarrow> string" where
  "artifactLanguage params meta pcc =
     (case (if truthy (portLanguage params) then portLanguage params else None) of
        Some l \<Rightarrow> l
      | None \<Rightarrow>
          if meta_type meta = ''code'' \<and> truthy (programmingLanguage meta)
          then show_str (programmingLanguage meta)
          else (case pcc of None \<Rightarrow> ''other'' | Some c \<Rightarrow> title c))"

definition rewriteArtifact_delta ::
  "graph_input \<Rightarrow> timing \<Rightarrow> artifact option \<Rightarrow> content option \<Rightarrow> rewrite_meta \<Rightarrow> frame
     \<Rightarrow> fold_state \<Rightarrow> fold_state flow" where
  "rewriteArtifact_delta params tm a pcc meta f s =
     (let h = fst s; v = snd s in
      case a of
        None \<Rightarrow> Return (toast ''Error'' ''Original artifact not found'' h, v)
      | Some art \<Rightarrow>
         (let v1 = v\<lparr>newArtifactContent :=
                      newArtifactContent v @ chunk_content (data_chunk f)\<rparr>;
              v2 = reserve_index art v1
          in Next
               (setArtifact tm (Rewritten art pcc (artifactLanguage params meta pcc)) v2 h,
                v2\<lparr>isFirstUpdate := False\<rparr>)))"

text \<open>
  Lines 452 to 522: the nodes \<^verbatim>\<open>rewriteArtifactTheme\<close>, \<^verbatim>\<open>rewriteCodeArtifactTheme\<close> and
  \<^verbatim>\<open>customAction\<close>.
\<close>

definition theme_delta ::
  "graph_input \<Rightarrow> timing \<Rightarrow> artifact option \<Rightarrow> content option \<Rightarrow> frame \<Rightarrow> fold_state
     \<Rightarrow> fold_state flow" where
  "theme_delta params tm a pcc f s =
     (let h = fst s; v = snd s in
      case a of
        None \<Rightarrow> Return (toast ''Error'' ''Original artifact not found'' h, v)
      | Some art \<Rightarrow>
         (case pcc of
            None \<Rightarrow> Return (toast ''Error'' ''Original artifact not found'' h, v)
          | Some prevCurrentContent \<Rightarrow>
             (let v1 = v\<lparr>newArtifactContent :=
                          newArtifactContent v @ chunk_content (data_chunk f)\<rparr>;
                  lang = (if truthy (portLanguage params) then show_str (portLanguage params)
                          else if isArtifactCodeContent prevCurrentContent
                            then language prevCurrentContent
                          else ''other'');
                  v2 = reserve_index art v1;
                  artifactType =
                    (if langgraph_node f = ''rewriteCodeArtifactTheme'' then ''code''
                     else if langgraph_node f = ''rewriteArtifactTheme'' then ''text''
                     else content_type prevCurrentContent)
              in Next
                   (setArtifact tm (Themed art prevCurrentContent artifactType lang) v2 h,
                    v2\<lparr>isFirstUpdate := False\<rparr>))))"

text \<open>
  Lines 175 to 523, a frame whose event is \<^verbatim>\<open>on_chat_model_stream\<close>. The source has one
  \<^verbatim>\<open>if\<close> after the other; each of them compares the node of the frame with other names, so
  at most one of them is taken.
\<close>

definition on_chat_model_stream ::
  "deps \<Rightarrow> graph_input \<Rightarrow> timing \<Rightarrow> artifact option \<Rightarrow> content option \<Rightarrow> frame
     \<Rightarrow> fold_state \<Rightarrow> fold_state flow" where
  "on_chat_model_stream d params tm a pcc f s =
     (let node = langgraph_node f in
      if node = ''generateFollowup'' \<or> node = ''respondToQuery'' then followup_delta d f s
      else if node = ''generateArtifact'' then generateArtifact_delta d tm f s
      else if node = ''updateHighlightedText'' then updateHighlightedText_delta tm a pcc f s
      else if node = ''updateArtifact'' then updateArtifact_delta params tm a pcc f s
      else if node = ''rewriteArtifact'' then
        (case rewriteArtifactMeta (snd s) of
           None \<Rightarrow> Next s
         | Some meta \<Rightarrow>
             if name f = Some ''rewrite_artifact_model_call''
             then rewriteArtifact_delta params tm a pcc meta f s
             else Next s)
      else if node = ''rewriteArtifactTheme'' \<or> node = ''rewriteCodeArtifactTheme''
              \<or> node = ''customAction''
        then theme_delta params tm a pcc f s
      else Next s)"

text \<open>Lines 163 to 540: the body of the loop for one frame, and what React does after it.\<close>

definition capture_run_id :: "frame \<Rightarrow> stream_vars \<Rightarrow> stream_vars" where
  "capture_run_id f v =
     (if runId v = [] \<and> truthy (run_id f) then v\<lparr>runId := show_str (run_id f)\<rparr> else v)"

definition capture_highlight :: "frame \<Rightarrow> stream_vars \<Rightarrow> stream_vars" where
  "capture_highlight f v =
     (if event f = ''on_chain_start'' \<and> langgraph_node f = ''updateHighlightedText''
      then v\<lparr>highlightedText := input_highlightedText f\<rparr> else v)"

definition on_chat_model_end :: "frame \<Rightarrow> fold_state \<Rightarrow> fold_state flow" where
  "on_chat_model_end f s =
     (if langgraph_node f = ''rewriteArtifact''
         \<and> name f = Some ''optionally_update_artifact_meta'' then
        (case output_args f of
           None \<Rightarrow> thrown s
         | Some args \<Rightarrow> Next (fst s, (snd s)\<lparr>rewriteArtifactMeta := Some args\<rparr>))
      else Next s)"

definition loop_body ::
  "deps \<Rightarrow> graph_input \<Rightarrow> timing \<Rightarrow> artifact option \<Rightarrow> content option \<Rightarrow> frame
     \<Rightarrow> fold_state \<Rightarrow> fold_state flow" where
  "loop_body d params tm a pcc f s =
     (let s1 = (fst s, capture_highlight f (capture_run_id f (snd s))) in
      if event f = ''on_chat_model_stream'' then on_chat_model_stream d params tm a pcc f s1
      else if event f = ''on_chat_model_end'' then on_chat_model_end f s1
      else Next s1)"

definition process_chunk ::
  "deps \<Rightarrow> graph_input \<Rightarrow> timing \<Rightarrow> artifact option \<Rightarrow> content option \<Rightarrow> frame
     \<Rightarrow> fold_state \<Rightarrow> fold_state flow" where
  "process_chunk d params tm a pcc f s =
     map_flow (after_frame tm) (loop_body d params tm a pcc f s)"

text \<open>
  The loop \<^verbatim>\<open>for await (const chunk of stream)\<close> over the frames that the transport
  yields; \<open>k\<close> is the position of the first of them.
\<close>

fun run_frames ::
  "deps \<Rightarrow> graph_input \<Rightarrow> schedule \<Rightarrow> artifact option \<Rightarrow> content option \<Rightarrow> nat
     \<Rightarrow> frame list \<Rightarrow> fold_state \<Rightarrow> fold_state flow" where
  "run_frames d params sched a pcc k [] s = Next s"
| "run_frames d params sched a pcc k (f # fs) s =
     (case process_chunk d params (sched k) a pcc f s of
        Next s' \<Rightarrow> run_frames d params sched a pcc (Suc k) fs s'
      | Return s' \<Rightarrow> Return s')"

section \<open>The operations of the hook\<close>

text \<open>Lines 132 to 160: the variables of a fold, from the artifact of the closure.\<close>

definition prevCurrentContent :: "artifact option \<Rightarrow> content option" where
  "prevCurrentContent a =
     (case a of None \<Rightarrow> None
      | Some art \<Rightarrow> find (\<lambda>c. index c = currentIndex art) (contents art))"

definition initial_vars :: "artifact option \<Rightarrow> stream_vars" where
  "initial_vars a =
     \<lparr>runId = [], followupMessageId = Some [],
      newArtifactIndex = (case a of None \<Rightarrow> None | Some art \<Rightarrow> Some (length (contents art) + 1)),
      rewriteArtifactMeta = None, generateArtifactToolCallStr = [],
      updatedArtifactStartContent = None, updatedArtifactRestContent = None,
      isFirstUpdate = True, newArtifactContent = [], highlightedText = None\<rparr>"

text \<open>
  The transport: the frames it yields and whether it fails after them (an exception of the
  stream, which the outer \<^verbatim>\<open>catch\<close> logs).
\<close>

record transport =
  frames :: "frame list"
  fails :: bool

text \<open>
  The fold of a stream: the loop over the frames and, when the loop is left, the render that
  runs the updaters that are still queued, on the variables as the loop has left them.
\<close>

definition fold_stream ::
  "deps \<Rightarrow> graph_input \<Rightarrow> schedule \<Rightarrow> transport \<Rightarrow> hook_state \<Rightarrow> fold_state flow" where
  "fold_stream d params sched tr h =
     map_flow rendered
       (run_frames d params sched (artifact h) (prevCurrentContent (artifact h)) 0 (frames tr)
          (h, initial_vars (artifact h)))"

text \<open>
  \<^verbatim>\<open>streamMessageV2\<close>, lines 89 to 609. The call of \<^verbatim>\<open>shareRun\<close> at the end is an effect;
  what its promise does later is \<open>attachSharedRun\<close> below.
\<close>

definition streamMessageV2 ::
  "deps \<Rightarrow> use_graph_input \<Rightarrow> graph_input \<Rightarrow> schedule \<Rightarrow> transport \<Rightarrow> hook_state
     \<Rightarrow> hook_state" where
  "streamMessageV2 d ugi params sched tr h =
     (if \<not> truthy (threadId ugi) then toast ''Error'' ''Thread ID not found'' h
      else if \<not> truthy (assistantId ugi) then toast ''Error'' ''Assistant ID not found'' h
      else
        (let h1 = h\<lparr>isStreaming := True,
                     effects := effects h
                       @ [StreamOpened (show_str (threadId ugi)) (show_str (assistantId ugi))]\<rparr>
         in case fold_stream d params sched tr h1 of
              Return (h2, v) \<Rightarrow> h2\<lparr>isStreaming := False\<rparr>
            | Next (h2, v) \<Rightarrow>
                (let h3 = (if fails tr then console_error ''Failed to stream message'' h2 else h2);
                     h4 = h3\<lparr>isStreaming := False\<rparr>
                 in if runId v \<noteq> [] then h4\<lparr>effects := effects h4 @ [ShareRun (runId v)]\<rparr>
                    else h4)))"

text \<open>
  Two schedules: React runs every updater at the call, or React queues every updater and runs
  it at the render after the frame.
\<close>

definition at_once :: schedule where
  "at_once = (\<lambda>k. \<lparr>eager = True, renders = True\<rparr>)"

definition next_render :: schedule where
  "next_render = (\<lambda>k. \<lparr>eager = False, renders = True\<rparr>)"

text \<open>
  Lines 84 to 87 and 611 to 654. These operations are called from outside a fold; their
  updaters read only the arguments of the call and are applied at the call.
\<close>

definition clearState :: "hook_state \<Rightarrow> hook_state" where
  "clearState h = h\<lparr>messages := [], artifact := None\<rparr>"

definition setSelectedArtifact :: "nat \<Rightarrow> hook_state \<Rightarrow> hook_state" where
  "setSelectedArtifact i h =
     (let h1 = h\<lparr>isStreaming := True\<rparr>;
          h2 = (case artifact h1 of
                  None \<Rightarrow> toast ''Error'' ''No artifactV2 found'' h1
                | Some prev \<Rightarrow> h1\<lparr>artifact := Some (prev\<lparr>currentIndex := i\<rparr>)\<rparr>)
      in h2\<lparr>isStreaming := False\<rparr>)"

definition setArtifactContent :: "deps \<Rightarrow> nat \<Rightarrow> string \<Rightarrow> hook_state \<Rightarrow> hook_state" where
  "setArtifactContent d i txt h =
     (let h1 = h\<lparr>isStreaming := True\<rparr>;
          h2 = (case artifact h1 of
                  None \<Rightarrow> toast ''Error'' ''No artifact found'' h1
                | Some prev \<Rightarrow>
                    h1\<lparr>artifact := Some
                         (prev\<lparr>currentIndex := i,
                            contents :=
                              map (\<lambda>a. case a of
                                     Code ai t c l \<Rightarrow>
                                       if ai = i then Code ai t (reverseCleanContent d txt) l
                                       else a
                                   | Markdown _ _ _ \<Rightarrow> a)
                                (contents prev)\<rparr>)\<rparr>)
      in h2\<lparr>isStreaming := False\<rparr>)"

section \<open>Shared-run annotations\<close>

text \<open>
  \<^verbatim>\<open>s.split(sep)\<close> for a separator that is not empty: the pieces of \<^verbatim>\<open>s\<close> between the
  occurrences of the separator, found from the left. \<open>skip\<close> counts the characters of an
  occurrence that are still to be passed over, \<open>acc\<close> is the piece so far, reversed.
\<close>

fun split_from :: "string \<Rightarrow> nat \<Rightarrow> string \<Rightarrow> string \<Rightarrow> string list" where
  "split_from sep skip acc [] = [rev acc]"
| "split_from sep skip acc (c # cs) =
     (if 0 < skip then split_from sep (skip - 1) acc cs
      else if take (length sep) (c # cs) = sep
        then rev acc # split_from sep (length sep - 1) [] cs
      else split_from sep 0 (c # acc) cs)"

definition js_split :: "string \<Rightarrow> string \<Rightarrow> string list" where
  "js_split s sep = split_from sep 0 [] s"

datatype error = TypeError

text \<open>
  \<^verbatim>\<open>url.split("https://smith.langchain.com/public/")[1].split("/")[0]\<close>: the second piece
  is \<^verbatim>\<open>undefined\<close> when the URL does not contain the prefix, and the call of \<^verbatim>\<open>split\<close> on
  it throws.
\<close>

definition run_id_of_url :: "string \<Rightarrow> error + string" where
  "run_id_of_url url =
     (case js_split url ''https://smith.langchain.com/public/'' of
        _ # piece # _ \<Rightarrow>
          (case js_split piece ''/'' of x # _ \<Rightarrow> Inr x | [] \<Rightarrow> Inl TypeError)
      | _ \<Rightarrow> Inl TypeError)"

text \<open>
  Lines 688 to 701, the function that \<^verbatim>\<open>switchSelectedThread\<close> maps over the persisted
  messages.
\<close>

definition attach_persisted_run :: "message \<Rightarrow> error + message" where
  "attach_persisted_run msg =
     (case langSmithRunURL msg of
        None \<Rightarrow> Inr msg
      | Some url \<Rightarrow>
          if url = [] then Inr msg
          else
            (case run_id_of_url url of
               Inl e \<Rightarrow> Inl e
             | Inr rid \<Rightarrow>
                 Inr (msg\<lparr>tool_calls := Some
                        ((case tool_calls msg of None \<Rightarrow> [] | Some tcs \<Rightarrow> tcs)
                         @ [\<lparr>tc_name = ''langsmith_tool_ui'', tc_sharedRunURL = Some url,
                             tc_id = Some rid\<rparr>])\<rparr>)))"

fun map_messages :: "(message \<Rightarrow> error + message) \<Rightarrow> message list \<Rightarrow> error + message list" where
  "map_messages g [] = Inr []"
| "map_messages g (m # ms) =
     (case g m of
        Inl e \<Rightarrow> Inl e
      | Inr m' \<Rightarrow> (case map_messages g ms of Inl e \<Rightarrow> Inl e | Inr ms' \<Rightarrow> Inr (m' # ms')))"

text \<open>
  The persisted artifact of a thread is of the deprecated shape or of the current one
  (\<^verbatim>\<open>isDeprecatedArtifactType\<close>); \<^verbatim>\<open>convertToArtifactV3\<close> is a parameter.
\<close>

datatype 'l persisted_artifact = Deprecated 'l | Current artifact

record 'l thread =
  thread_id :: string
  values_artifact :: "'l persisted_artifact option"
  values_messages :: "message list option"

text \<open>
  \<^verbatim>\<open>switchSelectedThread\<close>, lines 656 to 703. The result is the state, and the exception when
  the function that is mapped over the messages throws: \<^verbatim>\<open>setMessages\<close> is not called then.
\<close>

definition switchSelectedThread ::
  "('l \<Rightarrow> artifact) \<Rightarrow> 'l thread \<Rightarrow> hook_state \<Rightarrow> hook_state \<times> error option" where
  "switchSelectedThread convertToArtifactV3 t h =
     (let h1 = h\<lparr>effects := effects h @ [SetThreadId (thread_id t), SetCookie (thread_id t)]\<rparr>;
          art = (case values_artifact t of
                   None \<Rightarrow> None
                 | Some (Deprecated l) \<Rightarrow> Some (convertToArtifactV3 l)
                 | Some (Current a) \<Rightarrow> Some a);
          msgs = (case values_messages t of None \<Rightarrow> [] | Some ms \<Rightarrow> ms)
      in if msgs = [] then (h1\<lparr>messages := [], artifact := art\<rparr>, None)
         else
           (case map_messages attach_persisted_run msgs of
              Inl e \<Rightarrow> (h1\<lparr>artifact := art\<rparr>, Some e)
            | Inr msgs' \<Rightarrow> (h1\<lparr>artifact := art, messages := msgs'\<rparr>, None)))"

text \<open>
  Lines 556 to 585: what the promise of \<^verbatim>\<open>shareRun\<close> does to the messages once it has the
  URL of the shared run (\<open>None\<close> when there is none).
\<close>

definition has_run_annotation :: "message \<Rightarrow> bool" where
  "has_run_annotation msg =
     (case tool_calls msg of
        None \<Rightarrow> False
      | Some tcs \<Rightarrow> find (\<lambda>tc. tc_name tc = ''langsmith_tool_ui'') tcs \<noteq> None)"

definition attach_shared_run :: "string option \<Rightarrow> string option \<Rightarrow> message \<Rightarrow> error + message" where
  "attach_shared_run sharedRunURL followupId msg =
     (if msg_id msg = followupId \<and> \<not> has_run_annotation msg then
        (case (case sharedRunURL of
                 None \<Rightarrow> Inr None
               | Some url \<Rightarrow> (case run_id_of_url url of Inl e \<Rightarrow> Inl e | Inr x \<Rightarrow> Inr (Some x))) of
           Inl e \<Rightarrow> Inl e
         | Inr rid \<Rightarrow>
             Inr (msg\<lparr>tool_calls := Some
                    ((case tool_calls msg of None \<Rightarrow> [] | Some tcs \<Rightarrow> tcs)
                     @ [\<lparr>tc_name = ''langsmith_tool_ui'', tc_sharedRunURL = sharedRunURL,
                         tc_id = rid\<rparr>])\<rparr>))
      else Inr msg)"

definition attachSharedRun ::
  "string option \<Rightarrow> string option \<Rightarrow> hook_state \<Rightarrow> hook_state \<times> error option" where
  "attachSharedRun sharedRunURL followupId h =
     (case map_messages (attach_shared_run sharedRunURL followupId) (messages h) of
        Inl e \<Rightarrow> (h, Some e)
      | Inr msgs' \<Rightarrow> (h\<lparr>messages := msgs'\<rparr>, None))"

text \<open>What \<^verbatim>\<open>setArtifactContent\<close> makes of a code snapshot: the snapshot with the new code.\<close>

definition recoded :: "deps \<Rightarrow> string \<Rightarrow> content \<Rightarrow> content" where
  "recoded d txt c = Code (index c) (title c) (reverseCleanContent d txt) (language c)"

text \<open>
  The precedence of the output language as the specification words it: the explicit request
  override, else the declared programming language of the rewrite metadata (code only), else
  the declared title of the previous snapshot, else a generic fallback. \<open>present\<close> is an
  optional value that is there and not empty.
\<close>

definition present :: "string option \<Rightarrow> string option" where
  "present x = (if truthy x then x else None)"

definition language_precedence ::
  "string option \<Rightarrow> string option \<Rightarrow> string option \<Rightarrow> string \<Rightarrow> string" where
  "language_precedence override declared prevTitle fallback =
     (case override of
        Some l \<Rightarrow> l
      | None \<Rightarrow>
         (case declared of
            Some l \<Rightarrow> l
          | None \<Rightarrow> (case prevTitle of Some t \<Rightarrow> t | None \<Rightarrow> fallback)))"

definition resolved_language :: "graph_input \<Rightarrow> rewrite_meta \<Rightarrow> content option \<Rightarrow> string" where
  "resolved_language params meta pcc =
     language_precedence (present (portLanguage params))
       (if meta_type meta = ''code'' then present (programmingLanguage meta) else None)
       (map_option title pcc) ''other''"

text \<open>
  What one frame does to the artifact of a fold. \<open>kept\<close>: the frame leaves the artifact,
  the queue of updaters, the reserved index and the first-update flag as they are, and does
  not take the rewrite metadata away. \<open>writer\<close>: an updater of a span edit or of a rewrite
  (one that writes a snapshot at the reserved index), and, for a rewrite, with the metadata
  there. A frame has one of three effects: none of that kind, and the fold goes on or is
  left; or it hands \<^verbatim>\<open>setArtifact\<close> a writer and unsets the first-update flag.
\<close>

definition kept :: "fold_state \<Rightarrow> fold_state \<Rightarrow> bool" where
  "kept s s' =
     (artifact (fst s') = artifact (fst s) \<and> pending (fst s') = pending (fst s)
      \<and> newArtifactIndex (snd s') = newArtifactIndex (snd s)
      \<and> isFirstUpdate (snd s') = isFirstUpdate (snd s)
      \<and> (rewriteArtifactMeta (snd s) \<noteq> None \<longrightarrow> rewriteArtifactMeta (snd s') \<noteq> None))"

fun writer :: "stream_vars \<Rightarrow> updater \<Rightarrow> bool" where
  "writer v (Generated t) = False"
| "writer v (HighlightedMarkdown art pcc) = True"
| "writer v (HighlightedCode art pcc) = True"
| "writer v (Rewritten art pcc lang) = (rewriteArtifactMeta v \<noteq> None)"
| "writer v (Themed art pcc artifactType lang) = True"

inductive frame_effect :: "timing \<Rightarrow> fold_state \<Rightarrow> fold_state flow \<Rightarrow> bool"
  for tm :: timing and s :: fold_state where
  goes_on: "kept s s' \<Longrightarrow> frame_effect tm s (Next s')"
| leaves: "kept s s' \<Longrightarrow> frame_effect tm s (Return s')"
| hands_over:
    "kept s (fst s, v2) \<Longrightarrow> writer v2 u \<Longrightarrow>
       frame_effect tm s (Next (setArtifact tm u v2 (fst s), v2\<lparr>isFirstUpdate := False\<rparr>))"



text \<open>
  The invariant of a fold whose updaters React runs at the call: nothing is queued; before
  the first update the artifact is \<open>a0\<close>, after it the artifact has the indices of \<open>a0\<close>
  and one more snapshot, of the reserved index, and points to it.
\<close>

definition reserved :: "artifact \<Rightarrow> fold_state \<Rightarrow> bool" where
  "reserved a0 s =
     (newArtifactIndex (snd s) = Some (length (contents a0) + 1)
      \<and> pending (fst s) = []
      \<and> (if isFirstUpdate (snd s) then artifact (fst s) = Some a0
         else (case artifact (fst s) of
                 None \<Rightarrow> False
               | Some a' \<Rightarrow>
                   map index (contents a') = map index (contents a0) @ [length (contents a0) + 1]
                   \<and> currentIndex a' = length (contents a0) + 1)))"

text \<open>
  The invariant of a span edit on the artifact \<open>a0\<close>, whenever React runs the updaters.
  \<open>u\<close> is the updater that the deltas of the edit hand over and \<open>snap v\<close> is the snapshot
  that it writes when it runs on the variables \<open>v\<close>. The reserved index is the number of
  snapshots of \<open>a0\<close> plus one and only \<open>u\<close> is queued; before the first delta the
  artifact has the snapshots of \<open>a0\<close>; after it the artifact has the snapshots of \<open>a0\<close>
  and at most one more, of the reserved index, and when nothing is queued that one is the
  snapshot of the variables as they are.
\<close>

definition span_state ::
  "updater \<Rightarrow> (stream_vars \<Rightarrow> content) \<Rightarrow> artifact \<Rightarrow> fold_state \<Rightarrow> bool" where
  "span_state u snap a0 s =
     (newArtifactIndex (snd s) = Some (length (contents a0) + 1)
      \<and> list_all (\<lambda>x. x = u) (pending (fst s))
      \<and> (case artifact (fst s) of
            None \<Rightarrow> False
          | Some a' \<Rightarrow>
              if isFirstUpdate (snd s) then pending (fst s) = [] \<and> contents a' = contents a0
              else (contents a' = contents a0
                    \<or> (contents a' \<noteq> [] \<and> butlast (contents a') = contents a0
                        \<and> index (last (contents a')) = length (contents a0) + 1))
                   \<and> (pending (fst s) = [] \<longrightarrow>
                         currentIndex a' = length (contents a0) + 1
                         \<and> (contents a' = contents a0
                             \<or> contents a' = contents a0 @ [snap (snd s)]))))"


definition generates :: "frame \<Rightarrow> bool" where
  "generates f = (event f = ''on_chat_model_stream'' \<and> langgraph_node f = ''generateArtifact'')"

text \<open>
  A parsed tool call as the specification wants it for a new artifact: a content payload and a
  resolvable type and, for code, a resolvable language.
\<close>

definition resolvable :: "tool_response \<Rightarrow> bool" where
  "resolvable t =
     (truthy (tr_artifact t)
      \<and> (tr_type t = Some ''text'' \<or> (tr_type t = Some ''code'' \<and> truthy (tr_language t))))"

text \<open>
  A valid delta frame of a node: an \<^verbatim>\<open>on_chat_model_stream\<close> frame of that node whose
  payload has a content that is not empty; and the text it carries.
\<close>

definition is_delta_of :: "string \<Rightarrow> frame \<Rightarrow> bool" where
  "is_delta_of node f =
     (event f = ''on_chat_model_stream'' \<and> langgraph_node f = node
      \<and> (case data_chunk f of Payload m \<Rightarrow> p_content m \<noteq> [] | _ \<Rightarrow> False))"

definition delta_text :: "frame \<Rightarrow> string" where
  "delta_text f = chunk_content (data_chunk f)"

section \<open>Concrete inputs\<close>

definition no_deps :: deps where
  "no_deps = \<lparr>parsePartialJson = (\<lambda>s. None),
              replaceOrInsertMessageChunk = (\<lambda>ms p. ms),
              reverseCleanContent = (\<lambda>s. s)\<rparr>"

definition empty_hook :: hook_state where
  "empty_hook = \<lparr>messages = [], artifact = None, selectedBlocks = None, isStreaming = False,
                 pending = [], effects = []\<rparr>"

definition code_artifact :: artifact where
  "code_artifact = \<lparr>currentIndex = 1, contents = [Code 1 ''Demo'' ''abc123xyz'' ''javascript'']\<rparr>"

definition text_artifact :: artifact where
  "text_artifact =
     \<lparr>currentIndex = 1, contents = [Markdown 1 ''Notes'' ''## Title\<newline>\<newline>Hello world'']\<rparr>"

definition hook_with :: "artifact \<Rightarrow> hook_state" where
  "hook_with a = empty_hook\<lparr>artifact := Some a\<rparr>"

text \<open>A delta frame of a node with a text, and the start frame of a highlighted-text edit.\<close>

definition stream_frame :: "string \<Rightarrow> string \<Rightarrow> frame" where
  "stream_frame node txt =
     \<lparr>run_id = None, event = ''on_chat_model_stream'', name = None, langgraph_node = node,
      input_highlightedText = None,
      data_chunk = Payload \<lparr>p_id = None, p_content = txt, p_args = None\<rparr>,
      output_args = None\<rparr>"

definition start_frame :: "text_highlight \<Rightarrow> frame" where
  "start_frame ht =
     \<lparr>run_id = None, event = ''on_chain_start'', name = None,
      langgraph_node = ''updateHighlightedText'', input_highlightedText = Some ht,
      data_chunk = NoChunk, output_args = None\<rparr>"

definition hello_highlight :: text_highlight where
  "hello_highlight =
     \<lparr>hl_fullMarkdown = ''## Title\<newline>\<newline>Hello world'', markdownBlock = ''Hello world''\<rparr>"

definition range_params :: graph_input where
  "range_params =
     \<lparr>highlighted = Some \<lparr>startCharIndex = 3, endCharIndex = 6\<rparr>, portLanguage = None\<rparr>"

definition no_params :: graph_input where
  "no_params = \<lparr>highlighted = None, portLanguage = None\<rparr>"

text \<open>A persisted message that has both the URL of its shared run and the annotation.\<close>

definition shared_url :: string where
  "shared_url = ''https://smith.langchain.com/public/abc/r''"

definition run_annotation :: tool_call where
  "run_annotation = \<lparr>tc_name = ''langsmith_tool_ui'', tc_sharedRunURL = Some shared_url,
                      tc_id = Some ''abc''\<rparr>"

definition annotated_message :: message where
  "annotated_message = \<lparr>msg_id = Some ''m1'', msg_content = ''Done.'',
                         tool_calls = Some [run_annotation],
                         langSmithRunURL = Some shared_url\<rparr>"

definition annotated_thread :: "unit thread" where
  "annotated_thread = \<lparr>thread_id = ''t1'', values_artifact = None,
                        values_messages = Some [annotated_message]\<rparr>"

text \<open>Rewrite metadata of type code and of type text, and a delta frame of the rewrite.\<close>

definition py_meta :: rewrite_meta where
  "py_meta = \<lparr>meta_type = ''code'', meta_title = ''Demo'', programmingLanguage = Some ''python''\<rparr>"

definition essay_meta :: rewrite_meta where
  "essay_meta = \<lparr>meta_type = ''text'', meta_title = ''Essay'', programmingLanguage = Some ''python''\<rparr>"

definition queued :: timing where
  "queued = \<lparr>eager = False, renders = False\<rparr>"

definition rewrite_frame :: "string \<Rightarrow> frame" where
  "rewrite_frame txt = (stream_frame ''rewriteArtifact'' txt)\<lparr>name := Some ''rewrite_artifact_model_call''\<rparr>"

text \<open>
  The end frame that carries the rewrite metadata, and a fold of a rewrite: the metadata and
  two delta frames.
\<close>

definition meta_end_frame :: "rewrite_meta \<Rightarrow> frame" where
  "meta_end_frame m =
     \<lparr>run_id = Some ''run-1'', event = ''on_chat_model_end'',
      name = Some ''optionally_update_artifact_meta'', langgraph_node = ''rewriteArtifact'',
      input_highlightedText = None, data_chunk = NoChunk, output_args = Some m\<rparr>"

definition rewrite_transport :: transport where
  "rewrite_transport =
     \<lparr>frames = [meta_end_frame py_meta, rewrite_frame ''print'', rewrite_frame ''(1)''],
      fails = False\<rparr>"

text \<open>
  The scenario of the specification for a new artifact: the arguments of one tool call in
  three fragments, with what a parser of partial JSON makes of the string after each of them.
\<close>

definition gen_frame :: "string \<Rightarrow> frame" where
  "gen_frame args =
     \<lparr>run_id = None, event = ''on_chat_model_stream'', name = None,
      langgraph_node = ''generateArtifact'', input_highlightedText = None,
      data_chunk = Payload \<lparr>p_id = None, p_content = [], p_args = Some args\<rparr>,
      output_args = None\<rparr>"

definition fragment1 :: string where
  "fragment1 = ''{\"artifact\":\"function ad''"

definition fragment2 :: string where
  "fragment2 = ''d(a,b){\",\"type\":\"code\",''"

definition fragment3 :: string where
  "fragment3 = ''\"language\":\"javascript\"}''"

definition scenario_parse :: "string \<Rightarrow> tool_response option" where
  "scenario_parse s =
     (if s = fragment1 then
        Some \<lparr>tr_artifact = Some ''function ad'', tr_title = None, tr_language = None,
              tr_type = None\<rparr>
      else if s = fragment1 @ fragment2 then
        Some \<lparr>tr_artifact = Some ''function add(a,b){'', tr_title = None, tr_language = None,
              tr_type = Some ''code''\<rparr>
      else if s = fragment1 @ fragment2 @ fragment3 then
        Some \<lparr>tr_artifact = Some ''function add(a,b){'', tr_title = None,
              tr_language = Some ''javascript'', tr_type = Some ''code''\<rparr>
      else None)"

definition scenario_deps :: deps where
  "scenario_deps = no_deps\<lparr>parsePartialJson := scenario_parse\<rparr>"


definition after_two_fragments :: fold_state where
  "after_two_fragments =
     (empty_hook, (initial_vars None)\<lparr>generateArtifactToolCallStr := fragment1 @ fragment2\<rparr>)"

definition late_frame :: frame where
  "late_frame = (stream_frame ''respondToQuery'' ''Hello'')\<lparr>run_id := Some ''run-1''\<rparr>"

section \<open>Properties of fence stripping\<close>

lemma newline_not_tag: "\<not> is_tag_char newline"
  by (simp add: is_tag_char_def is_word_char_def newline_def)

lemma codeBlockRegex_fenced:
  assumes "\<forall>x\<in>set tag. is_tag_char x"
  shows "codeBlockRegex (fenced tag c) = Some c"
  using assms by (simp add: codeBlockRegex_def fenced_def newline_not_tag)

lemma codeBlockRegex_Some:
  assumes "codeBlockRegex text = Some b"
  shows "\<exists>tag. (\<forall>x\<in>set tag. is_tag_char x) \<and> text = fenced tag b"
proof -
  from assms have t3: "take 3 text = ''```''"
    by (simp add: codeBlockRegex_def split: if_splits)
  define after where "after = drop 3 text"
  define tag where "tag = takeWhile is_tag_char after"
  from assms t3 obtain c rest where dw: "dropWhile is_tag_char after = c # rest"
    and c: "c = newline" and len: "4 \<le> length rest"
    and tl: "drop (length rest - 4) rest = newline # ''```''"
    and b: "b = take (length rest - 4) rest"
    by (auto simp: codeBlockRegex_def after_def split: if_splits list.splits)
  have 1: "text = take 3 text @ after" by (simp add: after_def)
  have 2: "after = tag @ dropWhile is_tag_char after" by (simp add: tag_def)
  have 3: "rest = take (length rest - 4) rest @ drop (length rest - 4) rest" by simp
  have "text = ''```'' @ tag @ newline # rest"
    using 1 2 t3 dw c by metis
  also have "\<dots> = ''```'' @ tag @ newline # (b @ newline # ''```'')"
    using 3 tl b by metis
  finally have "text = fenced tag b"
    by (simp add: fenced_def)
  moreover have "\<forall>x\<in>set tag. is_tag_char x"
    unfolding tag_def by (auto dest: set_takeWhileD)
  ultimately show ?thesis by blast
qed

lemma codeBlockRegex_None_iff: "codeBlockRegex text = None \<longleftrightarrow> \<not> is_fenced text"
proof
  assume n: "codeBlockRegex text = None"
  show "\<not> is_fenced text"
  proof
    assume "is_fenced text"
    then obtain tag c where "\<forall>x\<in>set tag. is_tag_char x" "text = fenced tag c"
      by (auto simp: is_fenced_def)
    then have "codeBlockRegex text = Some c" by (simp add: codeBlockRegex_fenced)
    with n show False by simp
  qed
next
  assume nf: "\<not> is_fenced text"
  show "codeBlockRegex text = None"
  proof (cases "codeBlockRegex text")
    case None then show ?thesis .
  next
    case (Some b)
    from codeBlockRegex_Some [OF Some] have "is_fenced text"
      by (auto simp: is_fenced_def)
    with nf show ?thesis by simp
  qed
qed

lemma fenced_not_empty: "fenced tag c \<noteq> []"
  by (simp add: fenced_def)

lemma dropWhile_id: "xs = [] \<or> \<not> P (hd xs) \<Longrightarrow> dropWhile P xs = xs"
  by (cases xs) auto

lemma js_trim_clean:
  assumes "c = [] \<or> (\<not> is_js_space (hd c) \<and> \<not> is_js_space (last c))"
  shows "js_trim c = c"
proof (cases "c = []")
  case True then show ?thesis by (simp add: js_trim_def)
next
  case False
  with assms have h: "\<not> is_js_space (hd c)" and l: "\<not> is_js_space (last c)" by auto
  have "dropWhile is_js_space c = c" using h by (simp add: dropWhile_id)
  moreover have "dropWhile is_js_space (rev c) = rev c"
    using l False by (intro dropWhile_id) (simp add: hd_rev)
  ultimately show ?thesis by (simp add: js_trim_def)
qed


lemma codeBlockRegex_other_tag:
  assumes "x \<in> set tag" and "\<not> is_tag_char x" and "newline \<notin> set tag"
  shows "codeBlockRegex (fenced tag c) = None"
proof -
  let ?rest = "[newline] @ c @ [newline] @ ''```''"
  from assms(1,2) have d: "dropWhile is_tag_char (tag @ ?rest) = dropWhile is_tag_char tag @ ?rest"
    by (rule dropWhile_append1)
  from assms(1,2) have ne: "dropWhile is_tag_char tag \<noteq> []"
    by (auto simp: dropWhile_eq_Nil_conv)
  then obtain y ys where y: "dropWhile is_tag_char tag = y # ys"
    by (cases "dropWhile is_tag_char tag") auto
  have "y \<in> set (dropWhile is_tag_char tag)" by (simp add: y)
  then have "y \<in> set tag" by (rule set_dropWhileD)
  with assms(3) have "y \<noteq> newline" by auto
  with d y show ?thesis
    by (simp add: codeBlockRegex_def fenced_def)
qed

text \<open>
  A fenced block whose language tag has a character outside \<^verbatim>\<open>[\w-]\<close> is not unwrapped.
\<close>

lemma fence_strip_keeps_other_tag:
  "removeCodeBlockFormatting (fenced ''c++'' ''x'') = fenced ''c++'' ''x''"
  by (simp add: removeCodeBlockFormatting_def codeBlockRegex_def fenced_def is_tag_char_def
      is_word_char_def newline_def)

text \<open>
  The text of a fenced block is trimmed after it is unwrapped (\<^verbatim>\<open>match[1].trim()\<close>), so
  code that starts with a space does not come back exactly; and a block with the tag
  \<^verbatim>\<open>c++\<close> comes back with its fence.
\<close>

theorem fence_strip_trims_counterexample:
  "removeCodeBlockFormatting (fenced [] '' x'') = ''x''
   \<and> removeCodeBlockFormatting (fenced [] '' x'') \<noteq> '' x''
   \<and> removeCodeBlockFormatting (fenced ''c++'' ''x'') = fenced ''c++'' ''x''
   \<and> removeCodeBlockFormatting (fenced ''c++'' ''x'') \<noteq> ''x''"
  by (simp add: removeCodeBlockFormatting_def codeBlockRegex_def fenced_def js_trim_def
      is_js_space_def is_tag_char_def is_word_char_def newline_def)

text \<open>
  C6, amended. For every code text \<open>c\<close>: wrapped in a fenced block whose language tag is
  empty or made of letters, digits, underscores and hyphens only, \<open>removeCodeBlockFormatting\<close>
  yields \<open>c\<close> without its leading and trailing white space, which is \<open>c\<close> exactly when
  \<open>c\<close> is empty or neither starts nor ends with white space; wrapped in a fenced block whose
  tag has another character and no line feed (as \<^verbatim>\<open>c++\<close> or \<^verbatim>\<open>c#\<close>), the block is
  returned as it is, with its fence. A string that is not entirely wrapped in a fence of the
  first kind is returned unchanged.
\<close>

theorem fence_strip_roundtrip:
  "((\<forall>x\<in>set tag. is_tag_char x) \<longrightarrow>
      removeCodeBlockFormatting (fenced tag c) = js_trim c
      \<and> ((c = [] \<or> (\<not> is_js_space (hd c) \<and> \<not> is_js_space (last c)))
           \<longrightarrow> removeCodeBlockFormatting (fenced tag c) = c))
   \<and> ((\<exists>x\<in>set tag. \<not> is_tag_char x) \<and> newline \<notin> set tag \<longrightarrow>
        removeCodeBlockFormatting (fenced tag c) = fenced tag c)
   \<and> (\<not> is_fenced text \<longrightarrow> removeCodeBlockFormatting text = text)"
proof -
  have a: "removeCodeBlockFormatting (fenced tag c) = js_trim c"
    if "\<forall>x\<in>set tag. is_tag_char x"
    using that by (simp add: removeCodeBlockFormatting_def codeBlockRegex_fenced fenced_not_empty)
  have b: "\<not> is_fenced text \<Longrightarrow> removeCodeBlockFormatting text = text"
    using codeBlockRegex_None_iff [of "text"] by (simp add: removeCodeBlockFormatting_def)
  have o: "removeCodeBlockFormatting (fenced tag c) = fenced tag c"
    if "\<exists>x\<in>set tag. \<not> is_tag_char x" and "newline \<notin> set tag"
    using that codeBlockRegex_other_tag [of _ tag c]
    by (auto simp: removeCodeBlockFormatting_def)
  from a b o show ?thesis by (simp add: js_trim_clean)
qed

theorem fence_strip_roundtrip_witness:
  "removeCodeBlockFormatting (fenced ''js'' ''f(x) {}'') = ''f(x) {}''
   \<and> removeCodeBlockFormatting (fenced ''js'' ''  f(x) {} '') = ''f(x) {}''
   \<and> removeCodeBlockFormatting (fenced ''c#'' ''f(x) {}'') = fenced ''c#'' ''f(x) {}''
   \<and> removeCodeBlockFormatting ''abc```'' = ''abc```''"
proof -
  have t: "\<forall>x\<in>set ''js''. is_tag_char x"
    by (simp add: is_tag_char_def is_word_char_def)
  have c: "''f(x) {}'' = [] \<or> (\<not> is_js_space (hd ''f(x) {}'') \<and> \<not> is_js_space (last ''f(x) {}''))"
    by (simp add: is_js_space_def)
  have s: "js_trim ''  f(x) {} '' = ''f(x) {}''"
    by (simp add: js_trim_def is_js_space_def)
  have u: "(\<exists>x\<in>set ''c#''. \<not> is_tag_char x) \<and> newline \<notin> set ''c#''"
    by (simp add: is_tag_char_def is_word_char_def newline_def)
  have n: "\<not> is_fenced ''abc```''"
    by (simp add: is_fenced_def fenced_def)
  from fence_strip_roundtrip [of "''js''" "''f(x) {}''" "''abc```''"] t c n
  have 1: "removeCodeBlockFormatting (fenced ''js'' ''f(x) {}'') = ''f(x) {}''"
    and 4: "removeCodeBlockFormatting ''abc```'' = ''abc```''"
    by blast+
  from fence_strip_roundtrip [of "''js''" "''  f(x) {} ''" "''abc```''"] t s
  have 2: "removeCodeBlockFormatting (fenced ''js'' ''  f(x) {} '') = ''f(x) {}''"
    by simp
  from fence_strip_roundtrip [of "''c#''" "''f(x) {}''" "''abc```''"] u
  have 3: "removeCodeBlockFormatting (fenced ''c#'' ''f(x) {}'') = fenced ''c#'' ''f(x) {}''"
    by blast
  from 1 2 3 4 show ?thesis by blast
qed

section \<open>Properties of the operations of the hook\<close>

text \<open>
  C10. When the thread id or the assistant id is missing (absent or empty),
  \<open>streamMessageV2\<close> reports an error and does nothing else: the stream is not opened (no
  effect but the notification), and the messages, the artifact and the streaming flag stay as
  they are.
\<close>

theorem streamMessage_missing_ids:
  assumes "\<not> truthy (threadId ugi) \<or> \<not> truthy (assistantId ugi)"
  shows "messages (streamMessageV2 d ugi params sched tr h) = messages h
     \<and> artifact (streamMessageV2 d ugi params sched tr h) = artifact h
     \<and> isStreaming (streamMessageV2 d ugi params sched tr h) = isStreaming h
     \<and> selectedBlocks (streamMessageV2 d ugi params sched tr h) = selectedBlocks h
     \<and> effects (streamMessageV2 d ugi params sched tr h) =
         effects h @ [Toast ''Error''
           (if \<not> truthy (threadId ugi) then ''Thread ID not found''
            else ''Assistant ID not found'')]"
  using assms by (auto simp: streamMessageV2_def toast_def)


theorem streamMessage_missing_ids_witness:
  "effects (streamMessageV2 no_deps
      \<lparr>userId = ''u'', threadId = None, assistantId = Some ''a''\<rparr>
      \<lparr>highlighted = None, portLanguage = None\<rparr> at_once \<lparr>frames = [], fails = False\<rparr>
      empty_hook)
     = [Toast ''Error'' ''Thread ID not found'']
   \<and> effects (streamMessageV2 no_deps
      \<lparr>userId = ''u'', threadId = Some ''t'', assistantId = Some ''''\<rparr>
      \<lparr>highlighted = None, portLanguage = None\<rparr> at_once \<lparr>frames = [], fails = False\<rparr>
      empty_hook)
     = [Toast ''Error'' ''Assistant ID not found'']"
proof -
  have 1: "\<not> truthy (threadId \<lparr>userId = ''u'', threadId = None, assistantId = Some ''a''\<rparr>)
           \<or> \<not> truthy (assistantId \<lparr>userId = ''u'', threadId = None, assistantId = Some ''a''\<rparr>)"
    by (simp add: truthy_def)
  have 2: "\<not> truthy (threadId \<lparr>userId = ''u'', threadId = Some ''t'', assistantId = Some ''''\<rparr>)
           \<or> \<not> truthy (assistantId \<lparr>userId = ''u'', threadId = Some ''t'', assistantId = Some ''''\<rparr>)"
    by (simp add: truthy_def)
  from streamMessage_missing_ids [OF 1] streamMessage_missing_ids [OF 2]
  show ?thesis by (simp add: truthy_def empty_hook_def)
qed


lemma map_id_if: "(\<And>x. x \<in> set xs \<Longrightarrow> f x = x) \<Longrightarrow> map f xs = xs"
  by (induction xs) auto

text \<open>
  C9. \<open>setArtifactContent index content\<close>, when an artifact exists, repoints
  \<open>currentIndex\<close> to the index and replaces the code of exactly the snapshots of that index
  whose type is code; every other snapshot stays as it is, at its place, and where no snapshot
  is of that index and of type code the contents stay as they are. Without an artifact the
  artifact stays absent and an error is reported. The messages and the selected blocks are
  not touched.
\<close>

theorem setArtifactContent_frame:
  "(artifact h = Some a \<longrightarrow>
      (\<exists>a'. artifact (setArtifactContent d i txt h) = Some a'
         \<and> currentIndex a' = i
         \<and> length (contents a') = length (contents a)
         \<and> (\<forall>k < length (contents a).
               contents a' ! k =
                 (if index (contents a ! k) = i \<and> content_type (contents a ! k) = ''code''
                  then recoded d txt (contents a ! k) else contents a ! k))
         \<and> ((\<forall>c \<in> set (contents a). \<not> (index c = i \<and> content_type c = ''code''))
               \<longrightarrow> contents a' = contents a))
      \<and> effects (setArtifactContent d i txt h) = effects h)
   \<and> (artifact h = None \<longrightarrow>
        artifact (setArtifactContent d i txt h) = None
        \<and> effects (setArtifactContent d i txt h) = effects h @ [Toast ''Error'' ''No artifact found''])
   \<and> messages (setArtifactContent d i txt h) = messages h
   \<and> selectedBlocks (setArtifactContent d i txt h) = selectedBlocks h
   \<and> isStreaming (setArtifactContent d i txt h) = False"
proof -
  let ?g = "\<lambda>a. case a of
                 Code ai t c l \<Rightarrow> if ai = i then Code ai t (reverseCleanContent d txt) l else a
               | Markdown _ _ _ \<Rightarrow> a"
  have g: "?g c = (if index c = i \<and> content_type c = ''code'' then recoded d txt c else c)" for c
    by (cases c) (simp_all add: content_type_def recoded_def)
  have none: "artifact h = None \<Longrightarrow>
        artifact (setArtifactContent d i txt h) = None
        \<and> effects (setArtifactContent d i txt h) = effects h @ [Toast ''Error'' ''No artifact found'']"
    by (simp add: setArtifactContent_def toast_def)
  have rest: "messages (setArtifactContent d i txt h) = messages h
   \<and> selectedBlocks (setArtifactContent d i txt h) = selectedBlocks h
   \<and> isStreaming (setArtifactContent d i txt h) = False"
    by (cases "artifact h") (simp_all add: setArtifactContent_def toast_def)
  have some: "artifact h = Some a \<Longrightarrow>
      artifact (setArtifactContent d i txt h) = Some (a\<lparr>currentIndex := i, contents := map ?g (contents a)\<rparr>)
      \<and> effects (setArtifactContent d i txt h) = effects h"
    by (simp add: setArtifactContent_def)
  have same: "(\<forall>c \<in> set (contents a). \<not> (index c = i \<and> content_type c = ''code''))
               \<Longrightarrow> map ?g (contents a) = contents a"
    by (rule map_id_if) (simp only: g, simp)
  have nth: "\<forall>k < length (contents a). map ?g (contents a) ! k =
                 (if index (contents a ! k) = i \<and> content_type (contents a ! k) = ''code''
                  then recoded d txt (contents a ! k) else contents a ! k)"
    by (simp only: nth_map g, simp)
  have part1: "artifact h = Some a \<longrightarrow>
      (\<exists>a'. artifact (setArtifactContent d i txt h) = Some a'
         \<and> currentIndex a' = i
         \<and> length (contents a') = length (contents a)
         \<and> (\<forall>k < length (contents a).
               contents a' ! k =
                 (if index (contents a ! k) = i \<and> content_type (contents a ! k) = ''code''
                  then recoded d txt (contents a ! k) else contents a ! k))
         \<and> ((\<forall>c \<in> set (contents a). \<not> (index c = i \<and> content_type c = ''code''))
               \<longrightarrow> contents a' = contents a))
      \<and> effects (setArtifactContent d i txt h) = effects h"
  proof
    assume A: "artifact h = Some a"
    let ?a' = "a\<lparr>currentIndex := i, contents := map ?g (contents a)\<rparr>"
    have "artifact (setArtifactContent d i txt h) = Some ?a'"
      using some [OF A] by blast
    moreover have "currentIndex ?a' = i" by simp
    moreover have "length (contents ?a') = length (contents a)" by simp
    moreover have "\<forall>k < length (contents a).
               contents ?a' ! k =
                 (if index (contents a ! k) = i \<and> content_type (contents a ! k) = ''code''
                  then recoded d txt (contents a ! k) else contents a ! k)"
      using nth by simp
    moreover have "(\<forall>c \<in> set (contents a). \<not> (index c = i \<and> content_type c = ''code''))
               \<longrightarrow> contents ?a' = contents a"
      using same by simp
    moreover have "effects (setArtifactContent d i txt h) = effects h"
      using some [OF A] by blast
    ultimately show "(\<exists>a'. artifact (setArtifactContent d i txt h) = Some a'
         \<and> currentIndex a' = i
         \<and> length (contents a') = length (contents a)
         \<and> (\<forall>k < length (contents a).
               contents a' ! k =
                 (if index (contents a ! k) = i \<and> content_type (contents a ! k) = ''code''
                  then recoded d txt (contents a ! k) else contents a ! k))
         \<and> ((\<forall>c \<in> set (contents a). \<not> (index c = i \<and> content_type c = ''code''))
               \<longrightarrow> contents a' = contents a))
      \<and> effects (setArtifactContent d i txt h) = effects h"
      by blast
  qed
  from part1 none rest show ?thesis by blast
qed

theorem setArtifactContent_frame_witness:
  "artifact (setArtifactContent no_deps 1 ''let x'' (empty_hook\<lparr>artifact := Some code_artifact\<rparr>))
     = Some \<lparr>currentIndex = 1, contents = [Code 1 ''Demo'' ''let x'' ''javascript'']\<rparr>
   \<and> artifact (setArtifactContent no_deps 2 ''let x'' (empty_hook\<lparr>artifact := Some code_artifact\<rparr>))
     = Some \<lparr>currentIndex = 2, contents = [Code 1 ''Demo'' ''abc123xyz'' ''javascript'']\<rparr>
   \<and> effects (setArtifactContent no_deps 1 ''let x'' empty_hook) = [Toast ''Error'' ''No artifact found'']"
proof -
  let ?h = "empty_hook\<lparr>artifact := Some code_artifact\<rparr>"
  have A: "artifact ?h = Some code_artifact" by simp
  have N: "artifact empty_hook = None" by (simp add: empty_hook_def)
  have B: "\<forall>c \<in> set (contents code_artifact). \<not> (index c = 2 \<and> content_type c = ''code'')"
    by (simp add: code_artifact_def)
  from setArtifactContent_frame [of ?h code_artifact no_deps 1 "''let x''"] A
  obtain a1 where a1: "artifact (setArtifactContent no_deps 1 ''let x'' ?h) = Some a1"
    "currentIndex a1 = 1" "length (contents a1) = length (contents code_artifact)"
    "\<forall>k < length (contents code_artifact). contents a1 ! k =
       (if index (contents code_artifact ! k) = 1 \<and> content_type (contents code_artifact ! k) = ''code''
        then recoded no_deps ''let x'' (contents code_artifact ! k) else contents code_artifact ! k)"
    by blast
  from a1(3) obtain c where c: "contents a1 = [c]"
    by (cases "contents a1") (auto simp: code_artifact_def)
  from a1(4) c have "c = Code 1 ''Demo'' ''let x'' ''javascript''"
    by (simp add: code_artifact_def content_type_def recoded_def no_deps_def)
  with a1 c have 1: "artifact (setArtifactContent no_deps 1 ''let x'' ?h)
     = Some \<lparr>currentIndex = 1, contents = [Code 1 ''Demo'' ''let x'' ''javascript'']\<rparr>"
    by simp
  from setArtifactContent_frame [of ?h code_artifact no_deps 2 "''let x''"] A B
  obtain a2 where a2: "artifact (setArtifactContent no_deps 2 ''let x'' ?h) = Some a2"
    "currentIndex a2 = 2" "contents a2 = contents code_artifact"
    by blast
  then have 2: "artifact (setArtifactContent no_deps 2 ''let x'' ?h)
     = Some \<lparr>currentIndex = 2, contents = [Code 1 ''Demo'' ''abc123xyz'' ''javascript'']\<rparr>"
    by (simp add: code_artifact_def)
  from setArtifactContent_frame [of empty_hook code_artifact no_deps 1 "''let x''"] N
  have 3: "effects (setArtifactContent no_deps 1 ''let x'' empty_hook) = [Toast ''Error'' ''No artifact found'']"
    by (simp add: empty_hook_def)
  from 1 2 3 show ?thesis by blast
qed


section \<open>Properties of one frame\<close>

lemma capture_run_id_fields [simp]:
  "followupMessageId (capture_run_id f v) = followupMessageId v"
  "newArtifactIndex (capture_run_id f v) = newArtifactIndex v"
  "rewriteArtifactMeta (capture_run_id f v) = rewriteArtifactMeta v"
  "generateArtifactToolCallStr (capture_run_id f v) = generateArtifactToolCallStr v"
  "updatedArtifactStartContent (capture_run_id f v) = updatedArtifactStartContent v"
  "updatedArtifactRestContent (capture_run_id f v) = updatedArtifactRestContent v"
  "isFirstUpdate (capture_run_id f v) = isFirstUpdate v"
  "newArtifactContent (capture_run_id f v) = newArtifactContent v"
  "highlightedText (capture_run_id f v) = highlightedText v"
  by (simp_all add: capture_run_id_def)

lemma capture_highlight_fields [simp]:
  "runId (capture_highlight f v) = runId v"
  "followupMessageId (capture_highlight f v) = followupMessageId v"
  "newArtifactIndex (capture_highlight f v) = newArtifactIndex v"
  "rewriteArtifactMeta (capture_highlight f v) = rewriteArtifactMeta v"
  "generateArtifactToolCallStr (capture_highlight f v) = generateArtifactToolCallStr v"
  "updatedArtifactStartContent (capture_highlight f v) = updatedArtifactStartContent v"
  "updatedArtifactRestContent (capture_highlight f v) = updatedArtifactRestContent v"
  "isFirstUpdate (capture_highlight f v) = isFirstUpdate v"
  "newArtifactContent (capture_highlight f v) = newArtifactContent v"
  by (simp_all add: capture_highlight_def)

lemma capture_highlight_stream [simp]:
  "event f = ''on_chat_model_stream'' \<Longrightarrow> capture_highlight f v = v"
  by (simp add: capture_highlight_def)

lemma reserve_index_fields [simp]:
  "runId (reserve_index a v) = runId v"
  "followupMessageId (reserve_index a v) = followupMessageId v"
  "rewriteArtifactMeta (reserve_index a v) = rewriteArtifactMeta v"
  "generateArtifactToolCallStr (reserve_index a v) = generateArtifactToolCallStr v"
  "updatedArtifactStartContent (reserve_index a v) = updatedArtifactStartContent v"
  "updatedArtifactRestContent (reserve_index a v) = updatedArtifactRestContent v"
  "isFirstUpdate (reserve_index a v) = isFirstUpdate v"
  "newArtifactContent (reserve_index a v) = newArtifactContent v"
  "highlightedText (reserve_index a v) = highlightedText v"
  by (simp_all add: reserve_index_def)

lemma effect_fields [simp]:
  "artifact (toast t m h) = artifact h" "messages (toast t m h) = messages h"
  "artifact (console_error m h) = artifact h" "messages (console_error m h) = messages h"
  "isStreaming (toast t m h) = isStreaming h" "isStreaming (console_error m h) = isStreaming h"
  "selectedBlocks (toast t m h) = selectedBlocks h"
  "selectedBlocks (console_error m h) = selectedBlocks h"
  "pending (toast t m h) = pending h" "pending (console_error m h) = pending h"
  "effects (toast t m h) = effects h @ [Toast t m]"
  "effects (console_error m h) = effects h @ [ConsoleError m]"
  by (simp_all add: toast_def console_error_def)

text \<open>With nothing queued a render changes nothing, and an eager React runs the updater.\<close>

lemma render_nothing [simp]: "pending h = [] \<Longrightarrow> render v h = h"
  by (simp add: render_def)

lemma after_frame_nothing [simp]: "pending (fst s) = [] \<Longrightarrow> after_frame tm s = s"
  by (simp add: after_frame_def rendered_def)

lemma pending_render [simp]: "pending (render v h) = []"
  by (simp add: render_def)

lemma setArtifact_eager:
  "eager tm \<Longrightarrow> pending h = [] \<Longrightarrow>
     setArtifact tm u v h = h\<lparr>artifact := run_updater u v (artifact h)\<rparr>"
  by (simp add: setArtifact_def)

lemma setArtifact_queued:
  "\<not> eager tm \<or> pending h \<noteq> [] \<Longrightarrow> setArtifact tm u v h = h\<lparr>pending := pending h @ [u]\<rparr>"
  by (auto simp: setArtifact_def)

lemma setArtifact_fields [simp]:
  "messages (setArtifact tm u v h) = messages h"
  "selectedBlocks (setArtifact tm u v h) = selectedBlocks h"
  "isStreaming (setArtifact tm u v h) = isStreaming h"
  "effects (setArtifact tm u v h) = effects h"
  by (simp_all add: setArtifact_def)

lemma render_fields [simp]:
  "messages (render v h) = messages h"
  "selectedBlocks (render v h) = selectedBlocks h"
  "isStreaming (render v h) = isStreaming h"
  "effects (render v h) = effects h"
  by (simp_all add: render_def)

lemma loop_body_stream:
  "event f = ''on_chat_model_stream'' \<Longrightarrow>
     loop_body d params tm a pcc f s =
       on_chat_model_stream d params tm a pcc f (fst s, capture_run_id f (snd s))"
  by (simp add: loop_body_def)

lemma on_chat_model_stream_rewrite:
  assumes "langgraph_node f = ''rewriteArtifact''"
    and "name f = Some ''rewrite_artifact_model_call''"
    and "rewriteArtifactMeta (snd s) = Some meta"
  shows "on_chat_model_stream d params tm a pcc f s = rewriteArtifact_delta params tm a pcc meta f s"
  using assms by (simp add: on_chat_model_stream_def)

lemma artifactLanguage_precedence:
  "artifactLanguage params meta pcc = resolved_language params meta pcc"
  by (auto simp: artifactLanguage_def resolved_language_def language_precedence_def present_def
      truthy_def show_str_def split: option.splits)

text \<open>
  C7. A delta frame of the rewrite that arrives once the rewrite metadata is captured resolves
  the output language by the precedence: the override of the request (\<open>portLanguage\<close>) when
  it is there and not empty; else the programming language that the metadata declares, when
  the metadata is of type code and the language is there and not empty; else the title of the
  previous snapshot; else \<^verbatim>\<open>other\<close>. This is the value of \<open>artifactLanguage\<close>, for
  metadata of every type, and it is the language that the updater of the frame has captured
  when the frame hands it to \<^verbatim>\<open>setArtifact\<close>, whether React runs the updater at the call or
  queues it. The frame also appends its content to the text of the rewrite.
\<close>

theorem rewrite_language_precedence:
  assumes "event f = ''on_chat_model_stream''" and "langgraph_node f = ''rewriteArtifact''"
    and "name f = Some ''rewrite_artifact_model_call''"
    and "rewriteArtifactMeta (snd s) = Some meta" and "a = Some art"
  shows "artifactLanguage params meta pcc = resolved_language params meta pcc
     \<and> (\<exists>v2. process_chunk d params tm a pcc f s =
               Next (after_frame tm
                 (setArtifact tm (Rewritten art pcc (resolved_language params meta pcc)) v2 (fst s),
                  v2\<lparr>isFirstUpdate := False\<rparr>))
             \<and> rewriteArtifactMeta v2 = Some meta
             \<and> newArtifactContent v2 = newArtifactContent (snd s) @ chunk_content (data_chunk f)
             \<and> (\<not> eager tm \<or> pending (fst s) \<noteq> [] \<longrightarrow>
                  pending (setArtifact tm (Rewritten art pcc (resolved_language params meta pcc))
                             v2 (fst s))
                    = pending (fst s) @ [Rewritten art pcc (resolved_language params meta pcc)]))"
proof -
  let ?s = "(fst s, capture_run_id f (snd s))"
  let ?v2 = "reserve_index art ((snd ?s)\<lparr>newArtifactContent :=
                newArtifactContent (snd ?s) @ chunk_content (data_chunk f)\<rparr>)"
  let ?u = "Rewritten art pcc (resolved_language params meta pcc)"
  have "loop_body d params tm a pcc f s = rewriteArtifact_delta params tm a pcc meta f ?s"
    using assms by (simp add: loop_body_stream on_chat_model_stream_rewrite)
  also have "\<dots> = Next (setArtifact tm ?u ?v2 (fst s), ?v2\<lparr>isFirstUpdate := False\<rparr>)"
    using assms(5) unfolding rewriteArtifact_delta_def Let_def
    by (simp add: artifactLanguage_precedence)
  finally have "process_chunk d params tm a pcc f s =
      Next (after_frame tm (setArtifact tm ?u ?v2 (fst s), ?v2\<lparr>isFirstUpdate := False\<rparr>))"
    by (simp add: process_chunk_def)
  moreover have "rewriteArtifactMeta ?v2 = Some meta" using assms(4) by simp
  moreover have "newArtifactContent ?v2 = newArtifactContent (snd s) @ chunk_content (data_chunk f)"
    by simp
  moreover have "\<not> eager tm \<or> pending (fst s) \<noteq> [] \<longrightarrow>
      pending (setArtifact tm ?u ?v2 (fst s)) = pending (fst s) @ [?u]"
    by (auto simp: setArtifact_def)
  ultimately show ?thesis
    using artifactLanguage_precedence by blast
qed

theorem rewrite_language_precedence_witness:
  "artifactLanguage no_params py_meta (Some (Code 1 ''Demo'' ''abc123xyz'' ''javascript''))
     = ''python''
   \<and> artifactLanguage no_params essay_meta (Some (Code 1 ''Demo'' ''abc123xyz'' ''javascript''))
     = ''Demo''
   \<and> (\<exists>v2. process_chunk no_deps no_params queued (Some code_artifact)
               (Some (Code 1 ''Demo'' ''abc123xyz'' ''javascript'')) (rewrite_frame ''An essay'')
               (hook_with code_artifact,
                (initial_vars (Some code_artifact))\<lparr>rewriteArtifactMeta := Some essay_meta\<rparr>)
             = Next ((hook_with code_artifact)
                       \<lparr>pending := [Rewritten code_artifact
                                      (Some (Code 1 ''Demo'' ''abc123xyz'' ''javascript''))
                                      ''Demo'']\<rparr>,
                     v2\<lparr>isFirstUpdate := False\<rparr>))"
proof -
  let ?pcc = "Some (Code 1 ''Demo'' ''abc123xyz'' ''javascript'')"
  let ?s = "(hook_with code_artifact,
             (initial_vars (Some code_artifact))\<lparr>rewriteArtifactMeta := Some essay_meta\<rparr>)"
  let ?t = "(hook_with code_artifact,
             (initial_vars (Some code_artifact))\<lparr>rewriteArtifactMeta := Some py_meta\<rparr>)"
  have 1: "event (rewrite_frame x) = ''on_chat_model_stream''"
    and 2: "langgraph_node (rewrite_frame x) = ''rewriteArtifact''"
    and 3: "name (rewrite_frame x) = Some ''rewrite_artifact_model_call''" for x
    by (simp_all add: rewrite_frame_def stream_frame_def)
  have 4: "rewriteArtifactMeta (snd ?s) = Some essay_meta" by simp
  have 5: "rewriteArtifactMeta (snd ?t) = Some py_meta" by simp
  have 8: "Some code_artifact = Some code_artifact" by simp
  have py: "resolved_language no_params py_meta ?pcc = ''python''"
    by (simp add: resolved_language_def language_precedence_def present_def truthy_def
        no_params_def py_meta_def)
  have es: "resolved_language no_params essay_meta ?pcc = ''Demo''"
    by (simp add: resolved_language_def language_precedence_def present_def truthy_def
        no_params_def essay_meta_def)
  have q: "\<not> eager queued" "\<not> renders queued" by (simp_all add: queued_def)
  have p: "pending (hook_with code_artifact) = []" by (simp add: hook_with_def empty_hook_def)
  from rewrite_language_precedence [OF 1 [of "''An essay''"] 2 3 5 8, where d = no_deps
      and params = no_params and pcc = ?pcc and tm = queued]
  have a: "artifactLanguage no_params py_meta ?pcc = ''python''"
    unfolding py by blast
  from rewrite_language_precedence [OF 1 [of "''An essay''"] 2 3 4 8, where d = no_deps
      and params = no_params and pcc = ?pcc and tm = queued]
  have b: "artifactLanguage no_params essay_meta ?pcc = ''Demo''"
    and c: "\<exists>v2. process_chunk no_deps no_params queued (Some code_artifact) ?pcc
               (rewrite_frame ''An essay'') ?s
             = Next (after_frame queued
                 (setArtifact queued (Rewritten code_artifact ?pcc ''Demo'') v2
                    (hook_with code_artifact), v2\<lparr>isFirstUpdate := False\<rparr>))"
    unfolding es by auto
  have "setArtifact queued u v (hook_with code_artifact)
          = (hook_with code_artifact)\<lparr>pending := [u]\<rparr>" for u v
    using q p by (simp add: setArtifact_def)
  with c q have "\<exists>v2. process_chunk no_deps no_params queued (Some code_artifact) ?pcc
               (rewrite_frame ''An essay'') ?s
             = Next ((hook_with code_artifact)
                       \<lparr>pending := [Rewritten code_artifact ?pcc ''Demo'']\<rparr>,
                     v2\<lparr>isFirstUpdate := False\<rparr>)"
    by (simp add: after_frame_def)
  with a b show ?thesis by blast
qed

lemma on_chat_model_stream_generate:
  "langgraph_node f = ''generateArtifact'' \<Longrightarrow>
     on_chat_model_stream d params tm a pcc f s = generateArtifact_delta d tm f s"
  by (simp add: on_chat_model_stream_def)

lemma createNew_index:
  "createNewGeneratedArtifactFromTool t = Some c \<Longrightarrow> index c = 1 \<and> tr_type t = Some (content_type c)"
  by (auto simp: createNewGeneratedArtifactFromTool_def Let_def content_type_def
      split: if_splits option.splits)

lemma createNew_resolvable:
  assumes "tr_type t = Some ''text'' \<or> (tr_type t = Some ''code'' \<and> truthy (tr_language t))"
  shows "\<exists>c. createNewGeneratedArtifactFromTool t = Some c"
  using assms
  by (auto simp: createNewGeneratedArtifactFromTool_def Let_def truthy_def split: option.splits)

lemma artifact_guard_defaults: "artifact_guard (with_defaults t) = resolvable t"
  by (auto simp: artifact_guard_def resolvable_def with_defaults_def split: option.splits)

lemma generated_resolvable:
  assumes "resolvable t"
  shows "\<exists>c. createNewGeneratedArtifactFromTool (with_defaults t) = Some c
            \<and> index c = 1 \<and> tr_type t = Some (content_type c)"
proof -
  from assms have ty: "tr_type (with_defaults t) = tr_type t"
      "tr_language (with_defaults t) = tr_language t"
    by (auto simp: resolvable_def with_defaults_def)
  from assms have "tr_type (with_defaults t) = Some ''text''
      \<or> (tr_type (with_defaults t) = Some ''code'' \<and> truthy (tr_language (with_defaults t)))"
    unfolding ty by (simp add: resolvable_def)
  from createNew_resolvable [OF this] obtain c
    where c: "createNewGeneratedArtifactFromTool (with_defaults t) = Some c" by blast
  from createNew_index [OF c] ty c show ?thesis by simp
qed

text \<open>
  C3. A delta frame of the node \<^verbatim>\<open>generateArtifact\<close> appends its arguments to the
  accumulated tool-call string. When the string then parses into a value with a content
  payload and a resolvable type (and, for code, a language), the frame hands \<^verbatim>\<open>setArtifact\<close>
  an updater that, whenever it runs and whatever the artifact is then, gives a new artifact
  with \<open>currentIndex = 1\<close> and exactly one snapshot, of index 1 and of the parsed type; when
  React runs it at the call, the artifact after the frame is that one. When the string does
  not parse that way, the frame is skipped: it hands over no updater, the hook state (artifact,
  messages, effects) is as before and the fold goes on.
\<close>

theorem generateArtifact_replaces_artifact:
  assumes "event f = ''on_chat_model_stream''" and "langgraph_node f = ''generateArtifact''"
    and "acc = generateArtifactToolCallStr (snd s) @ show_str (chunk_args (data_chunk f))"
  shows "(\<forall>t. parsePartialJson d acc = Some t \<and> resolvable t \<longrightarrow>
            (\<exists>c v'. process_chunk d params tm a pcc f s =
                       Next (after_frame tm
                               (setArtifact tm (Generated (with_defaults t)) v' (fst s), v'))
                 \<and> (\<forall>w prev. run_updater (Generated (with_defaults t)) w prev
                               = Some \<lparr>currentIndex = 1, contents = [c]\<rparr>)
                 \<and> (eager tm \<and> pending (fst s) = [] \<longrightarrow>
                      process_chunk d params tm a pcc f s =
                        Next ((fst s)\<lparr>artifact := Some \<lparr>currentIndex = 1, contents = [c]\<rparr>\<rparr>, v'))
                 \<and> index c = 1 \<and> tr_type t = Some (content_type c)
                 \<and> generateArtifactToolCallStr v' = acc))
     \<and> ((\<forall>t. parsePartialJson d acc = Some t \<longrightarrow> \<not> resolvable t) \<longrightarrow>
            (\<exists>v'. process_chunk d params tm a pcc f s = Next (after_frame tm (fst s, v'))
                 \<and> (pending (fst s) = [] \<longrightarrow>
                      process_chunk d params tm a pcc f s = Next (fst s, v'))
                 \<and> generateArtifactToolCallStr v' = acc))"
proof -
  let ?v = "(capture_run_id f (snd s))\<lparr>generateArtifactToolCallStr := acc\<rparr>"
  have pc: "loop_body d params tm a pcc f s =
              generateArtifact_delta d tm f (fst s, capture_run_id f (snd s))"
    using assms(1,2) by (simp add: loop_body_stream on_chat_model_stream_generate)
  have skip0: "loop_body d params tm a pcc f s = Next (fst s, ?v)"
    if "\<forall>t. parsePartialJson d acc = Some t \<longrightarrow> \<not> resolvable t"
  proof (cases "parsePartialJson d acc")
    case None
    then show ?thesis
      unfolding pc generateArtifact_delta_def Let_def by (simp add: assms(3))
  next
    case (Some t)
    with that have "\<not> resolvable t" by simp
    with Some show ?thesis
      unfolding pc generateArtifact_delta_def Let_def
      by (simp add: assms(3) artifact_guard_defaults)
  qed
  have skip: "process_chunk d params tm a pcc f s = Next (after_frame tm (fst s, ?v))
      \<and> (pending (fst s) = [] \<longrightarrow> process_chunk d params tm a pcc f s = Next (fst s, ?v))"
    if "\<forall>t. parsePartialJson d acc = Some t \<longrightarrow> \<not> resolvable t"
    using skip0 [OF that] by (simp add: process_chunk_def)
  have make: "\<exists>c. process_chunk d params tm a pcc f s =
                 Next (after_frame tm (setArtifact tm (Generated (with_defaults t)) ?v (fst s), ?v))
               \<and> (\<forall>w prev. run_updater (Generated (with_defaults t)) w prev
                               = Some \<lparr>currentIndex = 1, contents = [c]\<rparr>)
               \<and> (eager tm \<and> pending (fst s) = [] \<longrightarrow>
                      process_chunk d params tm a pcc f s =
                        Next ((fst s)\<lparr>artifact := Some \<lparr>currentIndex = 1, contents = [c]\<rparr>\<rparr>, ?v))
               \<and> index c = 1 \<and> tr_type t = Some (content_type c)"
    if p: "parsePartialJson d acc = Some t" and r: "resolvable t" for t
  proof -
    from generated_resolvable [OF r] obtain c
      where c: "createNewGeneratedArtifactFromTool (with_defaults t) = Some c"
        and ix: "index c = 1" "tr_type t = Some (content_type c)" by blast
    have lb: "loop_body d params tm a pcc f s =
                Next (setArtifact tm (Generated (with_defaults t)) ?v (fst s), ?v)"
      unfolding pc generateArtifact_delta_def Let_def
      using p r by (simp add: assms(3) artifact_guard_defaults)
    hence 1: "process_chunk d params tm a pcc f s =
                 Next (after_frame tm (setArtifact tm (Generated (with_defaults t)) ?v (fst s), ?v))"
      by (simp add: process_chunk_def)
    have 2: "run_updater (Generated (with_defaults t)) w prev
               = Some \<lparr>currentIndex = 1, contents = [c]\<rparr>" for w prev
      using c by simp
    have 3: "process_chunk d params tm a pcc f s =
                Next ((fst s)\<lparr>artifact := Some \<lparr>currentIndex = 1, contents = [c]\<rparr>\<rparr>, ?v)"
      if "eager tm \<and> pending (fst s) = []"
      using that c unfolding 1 by (simp add: setArtifact_eager)
    from 1 2 3 ix show ?thesis by blast
  qed
  have g: "generateArtifactToolCallStr ?v = acc" by simp
  show ?thesis
  proof (intro conjI allI impI)
    fix t assume "parsePartialJson d acc = Some t \<and> resolvable t"
    with make [of t] g
    show "\<exists>c v'. process_chunk d params tm a pcc f s =
                       Next (after_frame tm
                               (setArtifact tm (Generated (with_defaults t)) v' (fst s), v'))
                 \<and> (\<forall>w prev. run_updater (Generated (with_defaults t)) w prev
                               = Some \<lparr>currentIndex = 1, contents = [c]\<rparr>)
                 \<and> (eager tm \<and> pending (fst s) = [] \<longrightarrow>
                      process_chunk d params tm a pcc f s =
                        Next ((fst s)\<lparr>artifact := Some \<lparr>currentIndex = 1, contents = [c]\<rparr>\<rparr>, v'))
                 \<and> index c = 1 \<and> tr_type t = Some (content_type c)
                 \<and> generateArtifactToolCallStr v' = acc"
      by blast
  next
    assume "\<forall>t. parsePartialJson d acc = Some t \<longrightarrow> \<not> resolvable t"
    from skip [OF this] g
    show "\<exists>v'. process_chunk d params tm a pcc f s = Next (after_frame tm (fst s, v'))
                 \<and> (pending (fst s) = [] \<longrightarrow>
                      process_chunk d params tm a pcc f s = Next (fst s, v'))
                 \<and> generateArtifactToolCallStr v' = acc"
      by blast
  qed
qed

theorem generateArtifact_replaces_artifact_witness:
  "(\<exists>c v'. process_chunk scenario_deps no_params (at_once 2) None None (gen_frame fragment3)
               after_two_fragments
             = Next (empty_hook\<lparr>artifact := Some \<lparr>currentIndex = 1, contents = [c]\<rparr>\<rparr>, v')
           \<and> index c = 1 \<and> content_type c = ''code'')
   \<and> (\<exists>v'. process_chunk scenario_deps no_params (at_once 1) None None (gen_frame fragment2)
               (empty_hook, (initial_vars None)\<lparr>generateArtifactToolCallStr := fragment1\<rparr>)
             = Next (empty_hook, v'))"
proof -
  let ?full = "\<lparr>tr_artifact = Some ''function add(a,b){'', tr_title = None,
                 tr_language = Some ''javascript'', tr_type = Some ''code''\<rparr>"
  have e: "event (gen_frame x) = ''on_chat_model_stream''"
    and n: "langgraph_node (gen_frame x) = ''generateArtifact''" for x
    by (simp_all add: gen_frame_def)
  have acc3: "fragment1 @ fragment2 @ fragment3 =
      generateArtifactToolCallStr (snd after_two_fragments)
        @ show_str (chunk_args (data_chunk (gen_frame fragment3)))"
    by (simp add: after_two_fragments_def gen_frame_def chunk_args_def show_str_def)
  have p3: "parsePartialJson scenario_deps (fragment1 @ fragment2 @ fragment3) = Some ?full"
    by (simp add: scenario_deps_def scenario_parse_def fragment1_def fragment2_def fragment3_def)
  have r3: "resolvable ?full" by (simp add: resolvable_def truthy_def)
  have f3: "fst after_two_fragments = empty_hook" by (simp add: after_two_fragments_def)
  have tm: "eager (at_once k)" for k by (simp add: at_once_def)
  have pe: "pending empty_hook = []" by (simp add: empty_hook_def)
  from generateArtifact_replaces_artifact [OF e n acc3, where d = scenario_deps
      and params = no_params and tm = "at_once 2" and a = None and pcc = None] p3 r3 tm pe
  have 1: "\<exists>c v'. process_chunk scenario_deps no_params (at_once 2) None None (gen_frame fragment3)
               after_two_fragments
             = Next (empty_hook\<lparr>artifact := Some \<lparr>currentIndex = 1, contents = [c]\<rparr>\<rparr>, v')
           \<and> index c = 1 \<and> content_type c = ''code''"
    unfolding f3 by fastforce
  let ?s1 = "(empty_hook, (initial_vars None)\<lparr>generateArtifactToolCallStr := fragment1\<rparr>)"
  have acc2: "fragment1 @ fragment2 =
      generateArtifactToolCallStr (snd ?s1)
        @ show_str (chunk_args (data_chunk (gen_frame fragment2)))"
    by (simp add: gen_frame_def chunk_args_def show_str_def)
  have p2: "\<forall>t. parsePartialJson scenario_deps (fragment1 @ fragment2) = Some t
              \<longrightarrow> \<not> resolvable t"
    by (simp add: scenario_deps_def scenario_parse_def fragment1_def fragment2_def fragment3_def
        resolvable_def truthy_def)
  from generateArtifact_replaces_artifact [OF e n acc2, where d = scenario_deps
      and params = no_params and tm = "at_once 1" and a = None and pcc = None] p2 pe
  have 2: "\<exists>v'. process_chunk scenario_deps no_params (at_once 1) None None (gen_frame fragment2) ?s1
             = Next (empty_hook, v')"
    by fastforce
  from 1 2 show ?thesis by blast
qed


section \<open>One new version per fold\<close>

lemma index_updater_snapshots [simp]:
  "index (case pcc of Code _ t _ l \<Rightarrow> Code n t body l | Markdown _ t _ \<Rightarrow> Code n t body l') = n"
  "index (if b then Code n t body l else Markdown n t body) = n"
  by (simp_all split: content.split)

lemma write_snapshot_first:
  "map index (contents (write_snapshot p snap True)) = map index (contents p) @ [index snap]"
  "currentIndex (write_snapshot p snap b) = index snap"
  by (simp_all add: write_snapshot_def)

lemma write_snapshot_later:
  "map index (contents (write_snapshot p snap False)) = map index (contents p)"
  by (simp add: write_snapshot_def comp_def)

lemma reserve_index_Some: "newArtifactIndex v = Some n \<Longrightarrow> reserve_index a v = v"
  by (simp add: reserve_index_def)

lemma index_or_default_Some: "newArtifactIndex v = Some n \<Longrightarrow> index_or_default a v = n"
  by (simp add: index_or_default_def)

lemma index_or_falsy_default_Some:
  "newArtifactIndex v = Some (Suc n) \<Longrightarrow> index_or_falsy_default a v = Suc n"
  by (simp add: index_or_falsy_default_def)

text \<open>A writer that runs on an artifact writes a snapshot of the reserved index.\<close>

lemma run_writer:
  assumes "writer v u" and "newArtifactIndex v = Some (Suc n)"
  shows "\<exists>snap. index snap = Suc n
           \<and> run_updater u v (Some a') = Some (write_snapshot a' snap (isFirstUpdate v))"
proof -
  have ex: "\<exists>snap. index snap = Suc n \<and> write_snapshot a' c b = write_snapshot a' snap b"
    if "index c = Suc n" for c b
    using that by blast
  show ?thesis
  proof (cases u)
    case (Generated t)
    with assms show ?thesis by simp
  next
    case (HighlightedMarkdown art pcc)
    with assms show ?thesis
      by (simp add: updateHighlightedMarkdown_def prev_or_def index_or_default_Some ex)
  next
    case (HighlightedCode art pcc)
    with assms show ?thesis
      by (simp add: updateHighlightedCode_def prev_or_def index_or_default_Some ex)
  next
    case (Rewritten art pcc lang)
    with assms obtain meta where "rewriteArtifactMeta v = Some meta" by auto
    with Rewritten assms show ?thesis
      by (simp add: updateRewrittenArtifact_def prev_or_def index_or_falsy_default_Some ex)
  next
    case (Themed art pcc ty lang)
    with assms show ?thesis
      by (simp add: updateRewrittenArtifact_def prev_or_def index_or_falsy_default_Some ex)
  qed
qed

lemma writer_flag [simp]: "writer (v\<lparr>isFirstUpdate := b\<rparr>) u = writer v u"
  by (cases u) simp_all

lemma writer_flag_fun [simp]: "writer (v\<lparr>isFirstUpdate := b\<rparr>) = writer v"
  by (rule ext) simp






lemma reserved_iff:
  "reserved a0 (h, v) \<longleftrightarrow>
     newArtifactIndex v = Some (Suc (length (contents a0)))
     \<and> pending h = []
     \<and> (isFirstUpdate v \<longrightarrow> artifact h = Some a0)
     \<and> (\<not> isFirstUpdate v \<longrightarrow>
          (\<exists>a'. artifact h = Some a'
             \<and> map index (contents a') = map index (contents a0) @ [Suc (length (contents a0))]
             \<and> currentIndex a' = Suc (length (contents a0))))"
  by (auto simp: reserved_def split: option.splits)

lemma kept_iff:
  "kept (h, v) (h', v') \<longleftrightarrow>
     artifact h' = artifact h \<and> pending h' = pending h
     \<and> newArtifactIndex v' = newArtifactIndex v \<and> isFirstUpdate v' = isFirstUpdate v
     \<and> (rewriteArtifactMeta v \<noteq> None \<longrightarrow> rewriteArtifactMeta v' \<noteq> None)"
  by (simp add: kept_def)



lemma reserved_kept:
  assumes "reserved a0 s" and "kept s s'"
  shows "reserved a0 s'"
proof -
  obtain h v h' v' where s: "s = (h, v)" "s' = (h', v')" by (cases s, cases s') auto
  from assms show ?thesis unfolding s by (auto simp: reserved_iff kept_iff)
qed


lemma reserved_hands_over:
  assumes inv: "reserved a0 s" and k: "kept s (fst s, v2)" and w: "writer v2 u"
    and e: "eager tm"
  shows "reserved a0 (setArtifact tm u v2 (fst s), v2\<lparr>isFirstUpdate := False\<rparr>)"
proof -
  obtain h v where s: "s = (h, v)" by (cases s)
  from inv [unfolded s reserved_iff]
  have idx: "newArtifactIndex v = Some (Suc (length (contents a0)))"
    and p: "pending h = []"
    and t: "isFirstUpdate v \<longrightarrow> artifact h = Some a0"
    and f: "\<not> isFirstUpdate v \<longrightarrow>
          (\<exists>a'. artifact h = Some a'
             \<and> map index (contents a') = map index (contents a0) @ [Suc (length (contents a0))]
             \<and> currentIndex a' = Suc (length (contents a0)))"
    by blast+
  from k [unfolded s] have kv: "newArtifactIndex v2 = newArtifactIndex v"
      "isFirstUpdate v2 = isFirstUpdate v"
    by (simp_all add: kept_iff)
  from t f obtain a' where a': "artifact h = Some a'" by blast
  from run_writer [OF w, of "length (contents a0)" a'] kv(1) idx obtain snap
    where snap: "index snap = Suc (length (contents a0))"
      "run_updater u v2 (Some a') = Some (write_snapshot a' snap (isFirstUpdate v2))"
    by auto
  from e p have st: "setArtifact tm u v2 h
      = h\<lparr>artifact := Some (write_snapshot a' snap (isFirstUpdate v2))\<rparr>"
    by (simp add: setArtifact_def a' snap(2))
  show ?thesis
  proof (cases "isFirstUpdate v")
    case True
    with t a' have "a' = a0" by simp
    with True kv idx snap(1) p show ?thesis
      unfolding s fst_conv st
      by (simp add: reserved_iff write_snapshot_first)
  next
    case False
    with f a' have "map index (contents a') = map index (contents a0) @ [Suc (length (contents a0))]"
      by auto
    with False kv idx snap(1) p show ?thesis
      unfolding s fst_conv st
      by (simp add: reserved_iff write_snapshot_first write_snapshot_later)
  qed
qed



lemma reserved_pending: "reserved a0 s \<Longrightarrow> pending (fst s) = []"
  by (cases s) (simp add: reserved_iff)

lemma reserved_after_frame: "reserved a0 s \<Longrightarrow> after_frame tm s = s"
  by (simp add: reserved_pending)

lemma pending_rendered [simp]: "pending (fst (rendered s)) = []"
  by (simp add: rendered_def)

lemma snd_rendered [simp]: "snd (rendered s) = snd s"
  by (simp add: rendered_def)

lemma snd_after_frame [simp]: "snd (after_frame tm s) = snd s"
  by (simp add: after_frame_def)

lemma kept_same [simp]: "kept s s"
  by (simp add: kept_def)

lemma hands_over_pair:
  "kept (h, v) (h, v2) \<Longrightarrow> writer v2 u \<Longrightarrow>
     frame_effect tm (h, v) (Next (setArtifact tm u v2 h, v2\<lparr>isFirstUpdate := False\<rparr>))"
  using hands_over [of "(h, v)" v2 u tm] by simp

lemma frame_effect_before:
  assumes "kept s s1" and "fst s1 = fst s" and "frame_effect tm s1 r"
  shows "frame_effect tm s r"
  using assms(3)
proof cases
  case (goes_on s')
  with assms(1) show ?thesis by (auto simp: kept_def intro!: frame_effect.goes_on)
next
  case (leaves s')
  with assms(1) show ?thesis by (auto simp: kept_def intro!: frame_effect.leaves)
next
  case (hands_over v2 u)
  from assms(1) hands_over(2) have "kept s (fst s, v2)" by (auto simp: kept_def assms(2))
  from frame_effect.hands_over [OF this hands_over(3), of tm] hands_over(1) assms(2)
  show ?thesis by simp
qed

lemma frame_effect_thrown: "frame_effect tm s (thrown s)"
  unfolding thrown_def by (rule goes_on) (simp add: kept_def)

lemma frame_effect_followup: "frame_effect tm s (followup_delta d f s)"
  unfolding followup_delta_def Let_def
  by (auto split: chunk.split intro!: goes_on frame_effect_thrown simp: kept_def)

lemma frame_effect_on_chat_model_end: "frame_effect tm s (on_chat_model_end f s)"
  unfolding on_chat_model_end_def
  by (auto split: option.split intro!: goes_on frame_effect_thrown simp: kept_def)

lemma init_text_span_fields [simp]:
  "newArtifactIndex (init_text_span ht v) = newArtifactIndex v"
  "isFirstUpdate (init_text_span ht v) = isFirstUpdate v"
  "highlightedText (init_text_span ht v) = highlightedText v"
  "rewriteArtifactMeta (init_text_span ht v) = rewriteArtifactMeta v"
  by (simp_all add: init_text_span_def Let_def)

lemma append_text_delta_fields [simp]:
  "newArtifactIndex (append_text_delta p v) = newArtifactIndex v"
  "isFirstUpdate (append_text_delta p v) = isFirstUpdate v"
  "updatedArtifactRestContent (append_text_delta p v) = updatedArtifactRestContent v"
  "highlightedText (append_text_delta p v) = highlightedText v"
  "rewriteArtifactMeta (append_text_delta p v) = rewriteArtifactMeta v"
  by (simp_all add: append_text_delta_def split: option.splits)

lemma step_code_span_fields [simp]:
  "newArtifactIndex (step_code_span hl c p v) = newArtifactIndex v"
  "isFirstUpdate (step_code_span hl c p v) = isFirstUpdate v"
  "rewriteArtifactMeta (step_code_span hl c p v) = rewriteArtifactMeta v"
  by (simp_all add: step_code_span_def)

lemma frame_effect_updateHighlightedText:
  assumes "newArtifactIndex (snd s) = Some n"
  shows "frame_effect tm s (updateHighlightedText_delta tm (Some a0) pcc f s)"
proof -
  obtain h v where s: "s = (h, v)" by (cases s)
  from assms have n: "newArtifactIndex v = Some n" by (simp add: s)
  have w: "frame_effect tm (h, v)
             (Next (setArtifact tm (HighlightedMarkdown a0 c) v2 h, v2\<lparr>isFirstUpdate := False\<rparr>))"
    if "kept (h, v) (h, v2)" for c v2
    using that by (rule hands_over_pair) simp
  show ?thesis
    unfolding s updateHighlightedText_delta_def Let_def
    by (auto split: chunk.split option.split
        simp: n reserve_index_Some kept_iff
        intro!: goes_on leaves frame_effect_thrown w)
qed

lemma frame_effect_updateArtifact:
  assumes "newArtifactIndex (snd s) = Some n"
  shows "frame_effect tm s (updateArtifact_delta params tm (Some a0) pcc f s)"
proof -
  obtain h v where s: "s = (h, v)" by (cases s)
  from assms have n: "newArtifactIndex v = Some n" by (simp add: s)
  have w: "frame_effect tm (h, v)
             (Next (setArtifact tm (HighlightedCode a0 c) v2 h, v2\<lparr>isFirstUpdate := False\<rparr>))"
    if "kept (h, v) (h, v2)" for c v2
    using that by (rule hands_over_pair) simp
  show ?thesis
    unfolding s updateArtifact_delta_def Let_def
    by (auto split: option.split content.split
        simp: n reserve_index_Some kept_iff
        intro!: goes_on leaves w)
qed

lemma frame_effect_rewriteArtifact:
  assumes "newArtifactIndex (snd s) = Some n" and "rewriteArtifactMeta (snd s) = Some meta"
  shows "frame_effect tm s (rewriteArtifact_delta params tm (Some a0) pcc meta f s)"
proof -
  obtain h v where s: "s = (h, v)" by (cases s)
  from assms have n: "newArtifactIndex v = Some n" "rewriteArtifactMeta v = Some meta"
    by (simp_all add: s)
  have w: "frame_effect tm (h, v)
             (Next (setArtifact tm (Rewritten a0 c l) v2 h, v2\<lparr>isFirstUpdate := False\<rparr>))"
    if "kept (h, v) (h, v2)" "rewriteArtifactMeta v2 \<noteq> None" for c l v2
    using that by (intro hands_over_pair) simp_all
  show ?thesis
    unfolding s rewriteArtifact_delta_def Let_def
    by (auto simp: n reserve_index_Some kept_iff intro!: w)
qed

lemma frame_effect_theme:
  assumes "newArtifactIndex (snd s) = Some n"
  shows "frame_effect tm s (theme_delta params tm (Some a0) pcc f s)"
proof -
  obtain h v where s: "s = (h, v)" by (cases s)
  from assms have n: "newArtifactIndex v = Some n" by (simp add: s)
  have w: "frame_effect tm (h, v)
             (Next (setArtifact tm (Themed a0 c ty l) v2 h, v2\<lparr>isFirstUpdate := False\<rparr>))"
    if "kept (h, v) (h, v2)" for c ty l v2
    using that by (rule hands_over_pair) simp
  show ?thesis
    unfolding s theme_delta_def Let_def
    by (auto split: option.split simp: n reserve_index_Some kept_iff intro!: leaves w)
qed

lemma frame_effect_on_chat_model_stream:
  assumes n: "newArtifactIndex (snd s) = Some n" and g: "langgraph_node f \<noteq> ''generateArtifact''"
  shows "frame_effect tm s (on_chat_model_stream d params tm (Some a0) pcc f s)"
proof -
  have same: "frame_effect tm s (Next s)" by (rule goes_on) simp
  have rw: "frame_effect tm s
      (case rewriteArtifactMeta (snd s) of
         None \<Rightarrow> Next s
       | Some meta \<Rightarrow>
           if name f = Some ''rewrite_artifact_model_call''
           then rewriteArtifact_delta params tm (Some a0) pcc meta f s
           else Next s)"
    by (cases "rewriteArtifactMeta (snd s)")
       (simp_all add: same frame_effect_rewriteArtifact [OF n])
  show ?thesis
    unfolding on_chat_model_stream_def Let_def
    by (simp add: g same rw frame_effect_followup frame_effect_updateHighlightedText [OF n]
        frame_effect_updateArtifact [OF n] frame_effect_theme [OF n])
qed

lemma kept_captures:
  "kept s (fst s, capture_highlight f (capture_run_id f (snd s)))"
  by (simp add: kept_def capture_highlight_def capture_run_id_def)

lemma frame_effect_loop_body:
  assumes "newArtifactIndex (snd s) = Some n" and "\<not> generates f"
  shows "frame_effect tm s (loop_body d params tm (Some a0) pcc f s)"
proof -
  let ?s1 = "(fst s, capture_highlight f (capture_run_id f (snd s)))"
  have n1: "newArtifactIndex (snd ?s1) = Some n" using assms(1) by simp
  have same: "frame_effect tm ?s1 (Next ?s1)" by (rule goes_on) simp
  have "frame_effect tm ?s1 (loop_body d params tm (Some a0) pcc f s)"
  proof (cases "event f = ''on_chat_model_stream''")
    case True
    with assms(2) have "langgraph_node f \<noteq> ''generateArtifact''" by (simp add: generates_def)
    from frame_effect_on_chat_model_stream [OF n1 this] True show ?thesis
      by (simp add: loop_body_def)
  next
    case False
    with same frame_effect_on_chat_model_end [where tm = tm and f = f and s = ?s1] show ?thesis
      by (simp add: loop_body_def Let_def)
  qed
  moreover have "fst ?s1 = fst s" by simp
  ultimately show ?thesis
    using kept_captures [of s f] frame_effect_before by blast
qed

lemma flow_state_map_flow [simp]: "flow_state (map_flow g r) = g (flow_state r)"
  by (cases r) simp_all


lemma reserved_effect:
  assumes "reserved a0 s" and "frame_effect tm s r" and "eager tm"
  shows "reserved a0 (flow_state r)"
  using assms(2)
proof cases
  case (goes_on s')
  with assms(1) show ?thesis by (auto intro: reserved_kept)
next
  case (leaves s')
  with assms(1) show ?thesis by (auto intro: reserved_kept)
next
  case (hands_over v2 u)
  from reserved_hands_over [OF assms(1) hands_over(2,3) assms(3)] hands_over(1)
  show ?thesis by simp
qed


lemma reserved_index:
  "reserved a0 s \<Longrightarrow> newArtifactIndex (snd s) = Some (Suc (length (contents a0)))"
  by (simp add: reserved_def)


lemma reserved_process_chunk:
  assumes "reserved a0 s" and "\<not> generates f" and "eager tm"
  shows "reserved a0 (flow_state (process_chunk d params tm (Some a0) pcc f s))"
proof -
  let ?r = "loop_body d params tm (Some a0) pcc f s"
  from frame_effect_loop_body [OF reserved_index [OF assms(1)] assms(2)]
  have "frame_effect tm s ?r" .
  from reserved_effect [OF assms(1) this assms(3)] have "reserved a0 (flow_state ?r)" .
  then show ?thesis by (simp add: process_chunk_def reserved_after_frame)
qed


lemma reserved_run_frames:
  assumes "reserved a0 s" and "\<forall>f \<in> set fs. \<not> generates f" and "\<forall>k. eager (sched k)"
  shows "reserved a0 (flow_state (run_frames d params sched (Some a0) pcc k fs s))"
  using assms(1,2)
proof (induction fs arbitrary: s k)
  case Nil
  then show ?case by simp
next
  case (Cons f fs)
  let ?r = "process_chunk d params (sched k) (Some a0) pcc f s"
  from Cons.prems have "\<not> generates f" by simp
  from reserved_process_chunk [OF Cons.prems(1) this] assms(3)
  have step: "reserved a0 (flow_state ?r)" by simp
  show ?case
  proof (cases ?r)
    case (Next s')
    with step have "reserved a0 s'" by simp
    with Cons.IH [of s' "Suc k"] Cons.prems(2) Next show ?thesis by simp
  next
    case (Return s')
    with step show ?thesis by simp
  qed
qed





lemma reserved_initial:
  "artifact h = Some a0 \<Longrightarrow> pending h = [] \<Longrightarrow> reserved a0 (h, initial_vars (Some a0))"
  by (simp add: reserved_iff initial_vars_def)




section \<open>Folds of concrete streams\<close>

lemmas frame_defs = stream_frame_def start_frame_def rewrite_frame_def meta_end_frame_def
  gen_frame_def late_frame_def

lemmas fold_defs = fold_stream_def process_chunk_def loop_body_def on_chat_model_stream_def
  on_chat_model_end_def capture_run_id_def capture_highlight_def initial_vars_def
  prevCurrentContent_def truthy_def show_str_def chunk_content_def chunk_args_def
  reserve_index_def index_or_default_def index_or_falsy_default_def prev_or_def
  materialized_def toast_def console_error_def thrown_def
  setArtifact_def render_def rendered_def after_frame_def at_once_def next_render_def

lemma strip_no_fence: "take 3 t \<noteq> ''```'' \<Longrightarrow> removeCodeBlockFormatting t = t"
  by (simp add: removeCodeBlockFormatting_def codeBlockRegex_def)

lemma rewrite_fold_value:
  "fold_stream no_deps no_params at_once rewrite_transport (hook_with code_artifact) =
     Next ((hook_with code_artifact)\<lparr>artifact := Some
              \<lparr>currentIndex = 2,
               contents = [Code 1 ''Demo'' ''abc123xyz'' ''javascript'',
                           Code 2 ''Demo'' ''print(1)'' ''python'']\<rparr>\<rparr>,
           (initial_vars (Some code_artifact))
             \<lparr>runId := ''run-1'', rewriteArtifactMeta := Some py_meta, isFirstUpdate := False,
              newArtifactContent := ''print(1)''\<rparr>)"
  by (simp add: fold_defs frame_defs rewrite_transport_def hook_with_def empty_hook_def
      code_artifact_def py_meta_def no_params_def rewriteArtifact_delta_def artifactLanguage_def
      updateRewrittenArtifact_def write_snapshot_def strip_no_fence Let_def)




lemma two_fragments_value:
  "fold_stream scenario_deps no_params next_render
     \<lparr>frames = [gen_frame fragment1, gen_frame fragment2], fails = False\<rparr> empty_hook
   = Next after_two_fragments"
  by (simp add: fold_defs frame_defs generateArtifact_delta_def artifact_guard_def
      with_defaults_def scenario_deps_def no_deps_def scenario_parse_def fragment1_def
      fragment2_def fragment3_def empty_hook_def after_two_fragments_def Let_def)

text \<open>
  The scenario of the specification for a new artifact, as a whole fold: one snapshot, of
  index 1 and type code, with the language and the code of the tool call, whether React runs
  the updater at the call or at the render after the frame.
\<close>

lemma generate_scenario:
  "artifact (fst (flow_state (fold_stream scenario_deps no_params at_once
       \<lparr>frames = [gen_frame fragment1, gen_frame fragment2, gen_frame fragment3],
        fails = False\<rparr> empty_hook)))
     = Some \<lparr>currentIndex = 1,
             contents = [Code 1 [] ''function add(a,b){'' ''javascript'']\<rparr>"
  "artifact (fst (flow_state (fold_stream scenario_deps no_params next_render
       \<lparr>frames = [gen_frame fragment1, gen_frame fragment2, gen_frame fragment3],
        fails = False\<rparr> empty_hook)))
     = Some \<lparr>currentIndex = 1,
             contents = [Code 1 [] ''function add(a,b){'' ''javascript'']\<rparr>"
  by (simp_all add: fold_defs frame_defs generateArtifact_delta_def artifact_guard_def
      with_defaults_def createNewGeneratedArtifactFromTool_def scenario_deps_def no_deps_def
      scenario_parse_def fragment1_def fragment2_def fragment3_def empty_hook_def Let_def)


section \<open>Preconditions of the highlighted-text edit\<close>

lemma on_chat_model_stream_text:
  "langgraph_node f = ''updateHighlightedText'' \<Longrightarrow>
     on_chat_model_stream d params tm a pcc f s = updateHighlightedText_delta tm a pcc f s"
  by (simp add: on_chat_model_stream_def)

text \<open>
  A highlighted-text delta whose active snapshot is a code snapshot ends the whole fold: the
  frame after it, which carries the run id, is never processed.
\<close>

theorem highlighted_text_wrong_variant_counterexample:
  "fold_stream no_deps no_params next_render
     \<lparr>frames = [start_frame hello_highlight, stream_frame ''updateHighlightedText'' ''Hi'',
                late_frame],
      fails = False\<rparr>
     (hook_with code_artifact)
   = Return (toast ''Error'' ''Received non markdown block update'' (hook_with code_artifact),
             (initial_vars (Some code_artifact))\<lparr>highlightedText := Some hello_highlight\<rparr>)"
  by (simp add: fold_defs frame_defs updateHighlightedText_delta_def
      isArtifactMarkdownContent_def hook_with_def empty_hook_def code_artifact_def
      hello_highlight_def Let_def)

text \<open>
  C4, amended. For every delta frame of a highlighted-text edit that has a payload: when
  there is no artifact the error is logged, and when no highlight descriptor is captured it is
  reported, and either way only that frame is skipped and the fold goes on with the next
  frame; when the active snapshot is missing or is not the text variant the error is reported
  and the whole fold ends there, whatever frames follow. (\<open>after_frame\<close> is the render
  after the frame: it runs the updaters that earlier frames have left queued, and is the
  identity when there is none.)
\<close>

theorem highlighted_text_preconditions:
  assumes "event f = ''on_chat_model_stream''"
    and "langgraph_node f = ''updateHighlightedText''"
    and "data_chunk f = Payload m"
  shows "(a = None \<longrightarrow>
            (\<forall>fs. run_frames d params sched a pcc k (f # fs) s =
               run_frames d params sched a pcc (Suc k) fs
                 (after_frame (sched k)
                    (console_error ''No artifacts found when updating highlighted markdown...''
                       (fst s), capture_run_id f (snd s)))))
     \<and> (a \<noteq> None \<and> highlightedText (snd s) = None \<longrightarrow>
            (\<forall>fs. run_frames d params sched a pcc k (f # fs) s =
               run_frames d params sched a pcc (Suc k) fs
                 (after_frame (sched k)
                    (toast ''Error'' ''No highlighted text found'' (fst s),
                     capture_run_id f (snd s)))))
     \<and> (a \<noteq> None \<and> highlightedText (snd s) \<noteq> None \<and> pcc = None \<longrightarrow>
            (\<forall>fs. run_frames d params sched a pcc k (f # fs) s =
               Return (after_frame (sched k)
                         (toast ''Error'' ''Original artifact not found'' (fst s),
                          capture_run_id f (snd s)))))
     \<and> (a \<noteq> None \<and> highlightedText (snd s) \<noteq> None
          \<and> (\<exists>c. pcc = Some c \<and> \<not> isArtifactMarkdownContent c) \<longrightarrow>
            (\<forall>fs. run_frames d params sched a pcc k (f # fs) s =
               Return (after_frame (sched k)
                         (toast ''Error'' ''Received non markdown block update'' (fst s),
                          capture_run_id f (snd s)))))"
proof -
  have pc: "process_chunk d params tm a' pcc' f s =
              map_flow (after_frame tm)
                (updateHighlightedText_delta tm a' pcc' f (fst s, capture_run_id f (snd s)))"
    for a' pcc' tm
    using assms(1,2) by (simp add: process_chunk_def loop_body_stream on_chat_model_stream_text)
  show ?thesis
    by (auto simp: pc updateHighlightedText_delta_def assms(3) Let_def)
qed


theorem highlighted_text_preconditions_witness:
  "run_frames no_deps no_params next_render None None 0
      [stream_frame ''updateHighlightedText'' ''Hi'', late_frame] (empty_hook, initial_vars None)
     = run_frames no_deps no_params next_render None None 1 [late_frame]
         (console_error ''No artifacts found when updating highlighted markdown...'' empty_hook,
          initial_vars None)
   \<and> run_frames no_deps no_params next_render (Some text_artifact)
      (prevCurrentContent (Some text_artifact)) 0
      [stream_frame ''updateHighlightedText'' ''Hi'', late_frame]
      (hook_with text_artifact, initial_vars (Some text_artifact))
     = run_frames no_deps no_params next_render (Some text_artifact)
         (prevCurrentContent (Some text_artifact)) 1 [late_frame]
         (toast ''Error'' ''No highlighted text found'' (hook_with text_artifact),
          initial_vars (Some text_artifact))
   \<and> run_frames no_deps no_params next_render (Some (text_artifact\<lparr>currentIndex := 7\<rparr>)) None 0
      [stream_frame ''updateHighlightedText'' ''Hi'', late_frame]
      (hook_with text_artifact,
       (initial_vars (Some text_artifact))\<lparr>highlightedText := Some hello_highlight\<rparr>)
     = Return (toast ''Error'' ''Original artifact not found'' (hook_with text_artifact),
               (initial_vars (Some text_artifact))\<lparr>highlightedText := Some hello_highlight\<rparr>)
   \<and> run_frames no_deps no_params next_render (Some code_artifact)
      (Some (Code 1 ''Demo'' ''abc123xyz'' ''javascript'')) 0
      [stream_frame ''updateHighlightedText'' ''Hi'', late_frame]
      (hook_with code_artifact,
       (initial_vars (Some code_artifact))\<lparr>highlightedText := Some hello_highlight\<rparr>)
     = Return (toast ''Error'' ''Received non markdown block update'' (hook_with code_artifact),
               (initial_vars (Some code_artifact))\<lparr>highlightedText := Some hello_highlight\<rparr>)"
proof -
  let ?f = "stream_frame ''updateHighlightedText'' ''Hi''"
  have e: "event ?f = ''on_chat_model_stream''"
    and n: "langgraph_node ?f = ''updateHighlightedText''"
    and p: "data_chunk ?f = Payload \<lparr>p_id = None, p_content = ''Hi'', p_args = None\<rparr>"
    by (simp_all add: stream_frame_def)
  have c: "capture_run_id ?f v = v" for v
    by (simp add: capture_run_id_def stream_frame_def truthy_def)
  have q: "pending empty_hook = []" "pending (hook_with x) = []" for x
    by (simp_all add: hook_with_def empty_hook_def)
  note t = highlighted_text_preconditions [OF e n p, unfolded c]
  have 1: "run_frames no_deps no_params next_render None None 0 [?f, late_frame]
       (empty_hook, initial_vars None)
     = run_frames no_deps no_params next_render None None 1 [late_frame]
         (console_error ''No artifacts found when updating highlighted markdown...'' empty_hook,
          initial_vars None)"
    using t [where a = None and s = "(empty_hook, initial_vars None)" and d = no_deps
        and params = no_params and pcc = None and sched = next_render and k = 0]
    by (simp add: q)
  have 2: "run_frames no_deps no_params next_render (Some text_artifact)
      (prevCurrentContent (Some text_artifact)) 0
      [?f, late_frame] (hook_with text_artifact, initial_vars (Some text_artifact))
     = run_frames no_deps no_params next_render (Some text_artifact)
         (prevCurrentContent (Some text_artifact)) 1 [late_frame]
         (toast ''Error'' ''No highlighted text found'' (hook_with text_artifact),
          initial_vars (Some text_artifact))"
    using t [where a = "Some text_artifact"
        and s = "(hook_with text_artifact, initial_vars (Some text_artifact))"
        and d = no_deps and params = no_params and pcc = "prevCurrentContent (Some text_artifact)"
        and sched = next_render and k = 0]
    by (simp add: initial_vars_def q)
  let ?v = "(initial_vars (Some text_artifact))\<lparr>highlightedText := Some hello_highlight\<rparr>"
  have 3: "run_frames no_deps no_params next_render (Some (text_artifact\<lparr>currentIndex := 7\<rparr>))
      None 0 [?f, late_frame] (hook_with text_artifact, ?v)
     = Return (toast ''Error'' ''Original artifact not found'' (hook_with text_artifact), ?v)"
    using t [where a = "Some (text_artifact\<lparr>currentIndex := 7\<rparr>)"
        and s = "(hook_with text_artifact, ?v)" and pcc = None and d = no_deps
        and params = no_params and sched = next_render and k = 0]
    by (simp add: q)
  let ?w = "(initial_vars (Some code_artifact))\<lparr>highlightedText := Some hello_highlight\<rparr>"
  have 4: "run_frames no_deps no_params next_render (Some code_artifact)
      (Some (Code 1 ''Demo'' ''abc123xyz'' ''javascript'')) 0 [?f, late_frame]
      (hook_with code_artifact, ?w)
     = Return (toast ''Error'' ''Received non markdown block update'' (hook_with code_artifact), ?w)"
    using t [where a = "Some code_artifact" and s = "(hook_with code_artifact, ?w)"
        and pcc = "Some (Code 1 ''Demo'' ''abc123xyz'' ''javascript'')" and d = no_deps
        and params = no_params and sched = next_render and k = 0]
    by (simp add: isArtifactMarkdownContent_def q)
  from 1 2 3 4 show ?thesis by blast
qed


section \<open>Span edits\<close>

lemma span_state_iff:
  "span_state u snap a0 (h, v) \<longleftrightarrow>
     newArtifactIndex v = Some (Suc (length (contents a0)))
     \<and> list_all (\<lambda>x. x = u) (pending h)
     \<and> (\<exists>a'. artifact h = Some a'
          \<and> (isFirstUpdate v \<longrightarrow> pending h = [] \<and> contents a' = contents a0)
          \<and> (\<not> isFirstUpdate v \<longrightarrow>
               (contents a' = contents a0
                \<or> (\<exists>x. index x = Suc (length (contents a0)) \<and> contents a' = contents a0 @ [x]))
               \<and> (pending h = [] \<longrightarrow>
                     currentIndex a' = Suc (length (contents a0))
                     \<and> (contents a' = contents a0 \<or> contents a' = contents a0 @ [snap v]))))"
proof -
  have b: "(cs \<noteq> [] \<and> butlast cs = xs \<and> index (last cs) = n)
             \<longleftrightarrow> (\<exists>x. index x = n \<and> cs = xs @ [x])" for cs xs :: "content list" and n
  proof
    assume "cs \<noteq> [] \<and> butlast cs = xs \<and> index (last cs) = n"
    then have "index (last cs) = n \<and> cs = xs @ [last cs]" by auto
    then show "\<exists>x. index x = n \<and> cs = xs @ [x]" by blast
  next
    assume "\<exists>x. index x = n \<and> cs = xs @ [x]"
    then show "cs \<noteq> [] \<and> butlast cs = xs \<and> index (last cs) = n" by auto
  qed
  show ?thesis
    unfolding span_state_def fst_conv snd_conv b
    by (cases "artifact h") auto
qed

text \<open>
  Replacing the snapshot of a new index in the snapshots of \<open>a0\<close>, with or without one more
  snapshot of that index.
\<close>

lemma replace_fresh:
  assumes "\<forall>c \<in> set cs. index c \<noteq> index snap"
  shows "map (\<lambda>c. if index c = index snap then snap else c) cs = cs"
  using assms by (induction cs) auto

lemma write_snapshot_contents:
  assumes "\<forall>c \<in> set (contents a0). index c \<noteq> index snap"
  shows "contents a' = contents a0 \<Longrightarrow>
           contents (write_snapshot a' snap True) = contents a0 @ [snap]"
    and "contents a' = contents a0 \<Longrightarrow> contents (write_snapshot a' snap False) = contents a0"
    and "index x = index snap \<Longrightarrow> contents a' = contents a0 @ [x] \<Longrightarrow>
           contents (write_snapshot a' snap False) = contents a0 @ [snap]"
  using assms by (simp_all add: write_snapshot_def replace_fresh)

lemma span_pending:
  assumes runs: "\<And>a'. run_updater u v (Some a') = Some (write_snapshot a' (snap v) False)"
    and ix: "index (snap v) = n"
    and fresh: "\<forall>c \<in> set (contents a0). index c \<noteq> n"
    and us: "list_all (\<lambda>x. x = u) us" and ne: "us \<noteq> []"
    and a': "contents a' = contents a0 \<or> (\<exists>x. index x = n \<and> contents a' = contents a0 @ [x])"
  shows "\<exists>a''. foldl (\<lambda>prev u. run_updater u v prev) (Some a') us = Some a''
           \<and> currentIndex a'' = n
           \<and> (contents a'' = contents a0 \<or> contents a'' = contents a0 @ [snap v])"
  using us ne a'
proof (induction us arbitrary: a')
  case Nil
  then show ?case by simp
next
  case (Cons w us)
  then have w: "w = u" and us: "list_all (\<lambda>x. x = u) us" by simp_all
  let ?a1 = "write_snapshot a' (snap v) False"
  have f: "\<forall>c \<in> set (contents a0). index c \<noteq> index (snap v)" using fresh ix by simp
  from Cons.prems(3) have c1: "contents ?a1 = contents a0 \<or> contents ?a1 = contents a0 @ [snap v]"
    using write_snapshot_contents(2) [OF f] write_snapshot_contents(3) [OF f] ix by metis
  have cur: "currentIndex ?a1 = n" by (simp add: write_snapshot_def ix)
  show ?case
  proof (cases us)
    case Nil
    with w c1 cur show ?thesis by (simp add: runs)
  next
    case (Cons y ys)
    from c1 ix have "contents ?a1 = contents a0
        \<or> (\<exists>x. index x = n \<and> contents ?a1 = contents a0 @ [x])" by blast
    from Cons.IH [OF us _ this] Cons w show ?thesis by (simp add: runs)
  qed
qed

lemma span_hands_over:
  assumes inv: "span_state u snap a0 (h, v)"
    and runs: "\<And>w a'. newArtifactIndex w = Some (Suc (length (contents a0))) \<Longrightarrow>
                 run_updater u w (Some a') = Some (write_snapshot a' (snap w) (isFirstUpdate w))"
    and ix: "\<And>w. index (snap w) = Suc (length (contents a0))"
    and fresh: "\<forall>c \<in> set (contents a0). index c \<noteq> Suc (length (contents a0))"
    and flagfree: "snap (v2\<lparr>isFirstUpdate := False\<rparr>) = snap v2"
    and kv: "newArtifactIndex v2 = newArtifactIndex v" "isFirstUpdate v2 = isFirstUpdate v"
  shows "span_state u snap a0 (setArtifact tm u v2 h, v2\<lparr>isFirstUpdate := False\<rparr>)"
proof -
  let ?n = "Suc (length (contents a0))"
  from inv [unfolded span_state_iff] obtain a'
    where idx: "newArtifactIndex v = Some ?n"
      and ps: "list_all (\<lambda>x. x = u) (pending h)"
      and a': "artifact h = Some a'"
      and t: "isFirstUpdate v \<longrightarrow> pending h = [] \<and> contents a' = contents a0"
      and f: "\<not> isFirstUpdate v \<longrightarrow>
               (contents a' = contents a0
                \<or> (\<exists>x. index x = ?n \<and> contents a' = contents a0 @ [x]))"
    by blast
  have fr: "\<forall>c \<in> set (contents a0). index c \<noteq> index (snap v2)" using fresh ix by simp
  show ?thesis
  proof (cases "eager tm \<and> pending h = []")
    case True
    let ?a1 = "write_snapshot a' (snap v2) (isFirstUpdate v2)"
    from True have st: "setArtifact tm u v2 h = h\<lparr>artifact := Some ?a1\<rparr>"
      by (simp add: setArtifact_def a' runs kv idx)
    have cur: "currentIndex ?a1 = ?n" by (simp add: write_snapshot_def ix)
    have "contents ?a1 = contents a0 @ [snap v2]
        \<or> (\<not> isFirstUpdate v \<and> contents ?a1 = contents a0)"
    proof (cases "isFirstUpdate v")
      case True
      with t kv write_snapshot_contents(1) [OF fr, of a'] show ?thesis by simp
    next
      case False
      with f kv write_snapshot_contents(2) [OF fr, of a']
        write_snapshot_contents(3) [OF fr, of _ a'] ix
      show ?thesis by (metis (full_types))
    qed
    with True cur idx kv ix show ?thesis
      unfolding st by (auto simp: span_state_iff flagfree)
  next
    case False
    then have st: "setArtifact tm u v2 h = h\<lparr>pending := pending h @ [u]\<rparr>"
      by (auto simp: setArtifact_def)
    from False t have nf: "\<not> isFirstUpdate v \<or> \<not> eager tm" by auto
    from ps a' t f idx kv show ?thesis
      unfolding st by (auto simp: span_state_iff)
  qed
qed

lemma span_render:
  assumes inv: "span_state u snap a0 (h, v)"
    and runs: "\<And>w a'. newArtifactIndex w = Some (Suc (length (contents a0))) \<Longrightarrow>
                 run_updater u w (Some a') = Some (write_snapshot a' (snap w) (isFirstUpdate w))"
    and ix: "\<And>w. index (snap w) = Suc (length (contents a0))"
    and fresh: "\<forall>c \<in> set (contents a0). index c \<noteq> Suc (length (contents a0))"
  shows "span_state u snap a0 (render v h, v)"
proof (cases "pending h = []")
  case True
  with inv show ?thesis by simp
next
  case False
  let ?n = "Suc (length (contents a0))"
  from inv [unfolded span_state_iff] False obtain a'
    where idx: "newArtifactIndex v = Some ?n"
      and ps: "list_all (\<lambda>x. x = u) (pending h)"
      and a': "artifact h = Some a'"
      and nf: "\<not> isFirstUpdate v"
      and f: "contents a' = contents a0
                \<or> (\<exists>x. index x = ?n \<and> contents a' = contents a0 @ [x])"
    by blast
  have r: "run_updater u v (Some b) = Some (write_snapshot b (snap v) False)" for b
    using runs [OF idx, of b] nf by simp
  from span_pending [of u v snap ?n a0 "pending h" a', OF r ix fresh ps False f] obtain a''
    where a'': "foldl (\<lambda>prev u. run_updater u v prev) (Some a') (pending h) = Some a''"
      "currentIndex a'' = ?n"
      "contents a'' = contents a0 \<or> contents a'' = contents a0 @ [snap v]"
    by blast
  from False have re: "render v h = h\<lparr>artifact := Some a'', pending := []\<rparr>"
    by (simp add: render_def a' a''(1))
  from a''(2,3) idx nf ix show ?thesis
    unfolding re by (auto simp: span_state_iff)
qed

lemma span_after_frame:
  assumes "span_state u snap a0 s"
    and "\<And>w a'. newArtifactIndex w = Some (Suc (length (contents a0))) \<Longrightarrow>
           run_updater u w (Some a') = Some (write_snapshot a' (snap w) (isFirstUpdate w))"
    and "\<And>w. index (snap w) = Suc (length (contents a0))"
    and "\<forall>c \<in> set (contents a0). index c \<noteq> Suc (length (contents a0))"
  shows "span_state u snap a0 (after_frame tm s)" "span_state u snap a0 (rendered s)"
proof -
  obtain h v where s: "s = (h, v)" by (cases s)
  from span_render [OF assms(1) [unfolded s] assms(2,3,4)]
  show "span_state u snap a0 (after_frame tm s)" "span_state u snap a0 (rendered s)"
    using assms(1) by (simp_all add: s after_frame_def rendered_def)
qed


lemma run_HighlightedMarkdown:
  "newArtifactIndex w = Some n \<Longrightarrow>
     run_updater (HighlightedMarkdown a0 (Markdown i t c)) w (Some a')
       = Some (write_snapshot a' (Markdown n t (materialized w)) (isFirstUpdate w))"
  by (simp add: updateHighlightedMarkdown_def prev_or_def index_or_default_Some)

lemma materialized_flag [simp]: "materialized (v\<lparr>isFirstUpdate := b\<rparr>) = materialized v"
  by (simp add: materialized_def)

lemma materialized_capture [simp]: "materialized (capture_run_id f v) = materialized v"
  by (simp add: materialized_def)


lemma process_chunk_stream:
  "event f = ''on_chat_model_stream'' \<Longrightarrow>
     process_chunk d params tm a pcc f s =
       map_flow (after_frame tm)
         (on_chat_model_stream d params tm a pcc f (fst s, capture_run_id f (snd s)))"
  by (simp add: process_chunk_def loop_body_stream)


lemma text_delta_step:
  assumes "is_delta_of ''updateHighlightedText'' f" and "highlightedText v = Some ht"
    and "newArtifactIndex v = Some n"
  shows "process_chunk d params tm (Some a0) (Some (Markdown i t c)) f (h, v) =
           Next (after_frame tm
             (setArtifact tm (HighlightedMarkdown a0 (Markdown i t c))
                (append_text_delta (delta_text f) (init_text_span ht (capture_run_id f v))) h,
              (append_text_delta (delta_text f) (init_text_span ht (capture_run_id f v)))
                \<lparr>isFirstUpdate := False\<rparr>))"
proof -
  from assms(1) obtain m where e: "event f = ''on_chat_model_stream''"
    and nd: "langgraph_node f = ''updateHighlightedText''"
    and p: "data_chunk f = Payload m" and ne: "p_content m \<noteq> []"
    by (auto simp: is_delta_of_def split: chunk.splits)
  show ?thesis
    unfolding process_chunk_stream [OF e] on_chat_model_stream_text [OF nd]
      updateHighlightedText_delta_def Let_def delta_text_def
    using ne p assms(2,3)
    by (simp add: reserve_index_Some isArtifactMarkdownContent_def chunk_content_def)
qed

lemma init_text_span_capture [simp]:
  "updatedArtifactStartContent (init_text_span ht (capture_run_id f v))
     = updatedArtifactStartContent (init_text_span ht v)"
  "updatedArtifactRestContent (init_text_span ht (capture_run_id f v))
     = updatedArtifactRestContent (init_text_span ht v)"
  by (simp_all add: init_text_span_def Let_def)

lemma append_text_delta_Some:
  assumes "updatedArtifactStartContent v = Some p" and "updatedArtifactRestContent v = Some q"
  shows "updatedArtifactStartContent (append_text_delta x v) = Some (p @ x)"
    and "materialized (append_text_delta x v) = p @ x @ q"
  using assms by (simp_all add: append_text_delta_def materialized_def show_str_def)



lemma span_state_index:
  "span_state u snap a0 s \<Longrightarrow> newArtifactIndex (snd s) = Some (Suc (length (contents a0)))"
  by (simp add: span_state_def)


lemma text_span_step:
  assumes f: "is_delta_of ''updateHighlightedText'' f" and ht: "highlightedText v = Some ht"
    and inv: "span_state (HighlightedMarkdown a0 (Markdown i t c))
                (\<lambda>w. Markdown (Suc (length (contents a0))) t (materialized w)) a0 (h, v)"
    and fresh: "\<forall>x \<in> set (contents a0). index x \<noteq> Suc (length (contents a0))"
  shows "\<exists>h'. process_chunk d params tm (Some a0) (Some (Markdown i t c)) f (h, v)
                = Next (h', (append_text_delta (delta_text f)
                               (init_text_span ht (capture_run_id f v)))
                              \<lparr>isFirstUpdate := False\<rparr>)
           \<and> span_state (HighlightedMarkdown a0 (Markdown i t c))
                (\<lambda>w. Markdown (Suc (length (contents a0))) t (materialized w)) a0
                (h', (append_text_delta (delta_text f)
                        (init_text_span ht (capture_run_id f v)))
                       \<lparr>isFirstUpdate := False\<rparr>)"
proof -
  let ?u = "HighlightedMarkdown a0 (Markdown i t c)"
  let ?snap = "\<lambda>w. Markdown (Suc (length (contents a0))) t (materialized w)"
  let ?v1 = "append_text_delta (delta_text f) (init_text_span ht (capture_run_id f v))"
  let ?s1 = "(setArtifact tm ?u ?v1 h, ?v1\<lparr>isFirstUpdate := False\<rparr>)"
  from span_state_index [OF inv] have n: "newArtifactIndex v = Some (Suc (length (contents a0)))"
    by simp
  have runs: "run_updater ?u w (Some a') = Some (write_snapshot a' (?snap w) (isFirstUpdate w))"
    if "newArtifactIndex w = Some (Suc (length (contents a0)))" for w a'
    using that by (rule run_HighlightedMarkdown)
  have ix: "index (?snap w) = Suc (length (contents a0))" for w by simp
  have 1: "span_state ?u ?snap a0 ?s1"
    by (rule span_hands_over [OF inv runs ix fresh]) simp_all
  from span_after_frame(1) [OF 1 runs ix fresh]
  have 2: "span_state ?u ?snap a0 (after_frame tm ?s1)" by simp
  have 3: "after_frame tm ?s1 = (fst (after_frame tm ?s1), ?v1\<lparr>isFirstUpdate := False\<rparr>)"
    by (simp add: prod_eq_iff)
  from 2 3 text_delta_step [OF f ht n, of d params tm a0 i t c h] show ?thesis by metis
qed


lemma text_span_run:
  assumes "\<forall>f \<in> set fs. is_delta_of ''updateHighlightedText'' f"
    and "highlightedText v = Some ht"
    and "updatedArtifactStartContent (init_text_span ht v) = Some p"
    and "updatedArtifactRestContent (init_text_span ht v) = Some q"
    and "span_state (HighlightedMarkdown a0 (Markdown i t c))
           (\<lambda>w. Markdown (Suc (length (contents a0))) t (materialized w)) a0 (h, v)"
    and fresh: "\<forall>x \<in> set (contents a0). index x \<noteq> Suc (length (contents a0))"
  shows "\<exists>h' v'. run_frames d params sched (Some a0) (Some (Markdown i t c)) k fs (h, v)
                    = Next (h', v')
           \<and> span_state (HighlightedMarkdown a0 (Markdown i t c))
                (\<lambda>w. Markdown (Suc (length (contents a0))) t (materialized w)) a0 (h', v')
           \<and> (fs \<noteq> [] \<longrightarrow>
                 \<not> isFirstUpdate v' \<and> materialized v' = p @ concat (map delta_text fs) @ q)"
  using assms(1-5)
proof (induction fs arbitrary: h v p k)
  case Nil
  then show ?case by simp
next
  case (Cons f fs)
  let ?v1 = "append_text_delta (delta_text f) (init_text_span ht (capture_run_id f v))"
  let ?v2 = "?v1\<lparr>isFirstUpdate := False\<rparr>"
  from Cons.prems(1) have f: "is_delta_of ''updateHighlightedText'' f"
    and fs: "\<forall>f \<in> set fs. is_delta_of ''updateHighlightedText'' f" by simp_all
  from text_span_step [OF f Cons.prems(2,5) fresh, of d params "sched k"] obtain h1
    where step: "process_chunk d params (sched k) (Some a0) (Some (Markdown i t c)) f (h, v)
                   = Next (h1, ?v2)"
      and inv1: "span_state (HighlightedMarkdown a0 (Markdown i t c))
           (\<lambda>w. Markdown (Suc (length (contents a0))) t (materialized w)) a0 (h1, ?v2)"
    by blast
  have st: "updatedArtifactStartContent ?v1 = Some (p @ delta_text f)"
    and mat: "materialized ?v1 = p @ delta_text f @ q"
    using Cons.prems(3,4) by (simp_all add: append_text_delta_Some)
  have rs: "updatedArtifactRestContent ?v1 = Some q"
    using Cons.prems(4) by simp
  have ht2: "highlightedText ?v2 = Some ht" using Cons.prems(2) by simp
  have st2: "updatedArtifactStartContent (init_text_span ht ?v2) = Some (p @ delta_text f)"
    and rs2: "updatedArtifactRestContent (init_text_span ht ?v2) = Some q"
    using st rs by (simp_all add: init_text_span_def Let_def)
  from Cons.IH [OF fs ht2 st2 rs2 inv1, of "Suc k"] obtain h' v'
    where run: "run_frames d params sched (Some a0) (Some (Markdown i t c)) (Suc k) fs (h1, ?v2)
                  = Next (h', v')"
      and inv': "span_state (HighlightedMarkdown a0 (Markdown i t c))
           (\<lambda>w. Markdown (Suc (length (contents a0))) t (materialized w)) a0 (h', v')"
      and more: "fs \<noteq> [] \<longrightarrow> \<not> isFirstUpdate v'
                 \<and> materialized v' = (p @ delta_text f) @ concat (map delta_text fs) @ q"
    by blast
  have whole: "run_frames d params sched (Some a0) (Some (Markdown i t c)) k (f # fs) (h, v)
                 = Next (h', v')"
    using step run by simp
  have "\<not> isFirstUpdate v' \<and> materialized v' = p @ concat (map delta_text (f # fs)) @ q"
  proof (cases "fs = []")
    case True
    with run mat show ?thesis by auto
  next
    case False
    with more show ?thesis by simp
  qed
  with whole inv' show ?case by (auto simp del: run_frames.simps)
qed

lemma initial_vars_fields [simp]:
  "updatedArtifactStartContent (initial_vars a) = None"
  "updatedArtifactRestContent (initial_vars a) = None"
  "isFirstUpdate (initial_vars a) = True"
  "highlightedText (initial_vars a) = None"
  "newArtifactIndex (initial_vars (Some a0)) = Some (Suc (length (contents a0)))"
  by (simp_all add: initial_vars_def)

lemma span_state_initial:
  "artifact h = Some a0 \<Longrightarrow> pending h = [] \<Longrightarrow> span_state u snap a0 (h, initial_vars (Some a0))"
  by (simp add: span_state_iff)

text \<open>
  What a span edit leaves when the fold is over: nothing queued, the artifact pointing to the
  reserved index, with the snapshots it had and at most one more, the snapshot of the
  variables at the end; and exactly that one more when React has run the updaters at the
  call.
\<close>

lemma span_state_end:
  assumes inv: "span_state u snap a0 (h', v')" and nf: "\<not> isFirstUpdate v'"
    and p: "pending h' = []"
  shows "\<exists>a'. artifact h' = Some a' \<and> currentIndex a' = Suc (length (contents a0))
           \<and> (contents a' = contents a0 \<or> contents a' = contents a0 @ [snap v'])
           \<and> (reserved a0 (h', v') \<longrightarrow> contents a' = contents a0 @ [snap v'])"
proof -
  from inv nf p obtain a' where a': "artifact h' = Some a'"
    "currentIndex a' = Suc (length (contents a0))"
    "contents a' = contents a0 \<or> contents a' = contents a0 @ [snap v']"
    by (auto simp: span_state_iff)
  have "contents a' = contents a0 @ [snap v']" if "reserved a0 (h', v')"
  proof -
    from that nf a'(1) have "map index (contents a')
        = map index (contents a0) @ [Suc (length (contents a0))]"
      by (auto simp: reserved_iff)
    then have "length (map index (contents a')) \<noteq> length (map index (contents a0))"
      by simp
    then have "contents a' \<noteq> contents a0" by auto
    with a'(3) show ?thesis by simp
  qed
  with a' show ?thesis by blast
qed


text \<open>
  The highlighted-text edit does what C1 says: after the start frame that carries the
  highlight descriptor and any valid deltas, the materialized document is the prefix, all the
  deltas in order, and the suffix, and it is the markdown of the new snapshot.
\<close>

lemma highlighted_text_edit_fold:
  assumes a: "artifact h = Some a0" and p: "pending h = []"
    and pcc: "prevCurrentContent (Some a0) = Some (Markdown i t c)"
    and f0: "event f0 = ''on_chain_start''" "langgraph_node f0 = ''updateHighlightedText''"
      "input_highlightedText f0 = Some ht"
    and ne: "fs \<noteq> []" and fs: "\<forall>f \<in> set fs. is_delta_of ''updateHighlightedText'' f"
    and fresh: "\<forall>x \<in> set (contents a0). index x \<noteq> Suc (length (contents a0))"
  shows "\<exists>h' v' a'. fold_stream d params sched \<lparr>frames = f0 # fs, fails = b\<rparr> h = Next (h', v')
           \<and> materialized v' =
               js_slice (hl_fullMarkdown ht) 0 (indexOf (hl_fullMarkdown ht) (markdownBlock ht))
                 @ concat (map delta_text fs)
                 @ js_slice_from (hl_fullMarkdown ht)
                     (indexOf (hl_fullMarkdown ht) (markdownBlock ht)
                        + int (length (markdownBlock ht)))
           \<and> pending h' = [] \<and> artifact h' = Some a'
           \<and> currentIndex a' = Suc (length (contents a0))
           \<and> (contents a' = contents a0
               \<or> contents a' = contents a0
                    @ [Markdown (Suc (length (contents a0))) t (materialized v')])
           \<and> ((\<forall>k. eager (sched k)) \<longrightarrow>
                 contents a' = contents a0
                    @ [Markdown (Suc (length (contents a0))) t (materialized v')])"
proof -
  let ?u = "HighlightedMarkdown a0 (Markdown i t c)"
  let ?snap = "\<lambda>w. Markdown (Suc (length (contents a0))) t (materialized w)"
  let ?v0 = "initial_vars (Some a0)"
  let ?v1 = "capture_highlight f0 (capture_run_id f0 ?v0)"
  let ?pcc = "Some (Markdown i t c)"
  have step: "process_chunk d params (sched 0) (Some a0) ?pcc f0 (h, ?v0) = Next (h, ?v1)"
    using f0(1) p by (simp add: process_chunk_def loop_body_def)
  have inv1: "span_state ?u ?snap a0 (h, ?v1)"
    using span_state_initial [OF a p, of ?u ?snap] by (simp add: span_state_iff)
  have ht: "highlightedText ?v1 = Some ht"
    using f0 by (simp add: capture_highlight_def)
  have st: "updatedArtifactStartContent (init_text_span ht ?v1) =
              Some (js_slice (hl_fullMarkdown ht) 0 (indexOf (hl_fullMarkdown ht) (markdownBlock ht)))"
    and rs: "updatedArtifactRestContent (init_text_span ht ?v1) =
              Some (js_slice_from (hl_fullMarkdown ht)
                     (indexOf (hl_fullMarkdown ht) (markdownBlock ht)
                        + int (length (markdownBlock ht))))"
    by (simp_all add: init_text_span_def Let_def)
  from text_span_run [OF fs ht st rs inv1 fresh, of d params sched "Suc 0"] ne obtain h2 v'
    where run: "run_frames d params sched (Some a0) ?pcc (Suc 0) fs (h, ?v1) = Next (h2, v')"
      and inv2: "span_state ?u ?snap a0 (h2, v')"
      and flag: "\<not> isFirstUpdate v'"
      and mat: "materialized v' =
               js_slice (hl_fullMarkdown ht) 0 (indexOf (hl_fullMarkdown ht) (markdownBlock ht))
                 @ concat (map delta_text fs)
                 @ js_slice_from (hl_fullMarkdown ht)
                     (indexOf (hl_fullMarkdown ht) (markdownBlock ht)
                        + int (length (markdownBlock ht)))"
    by blast
  have loop: "run_frames d params sched (Some a0) ?pcc 0 (f0 # fs) (h, ?v0) = Next (h2, v')"
    using step run by simp
  have whole: "fold_stream d params sched \<lparr>frames = f0 # fs, fails = b\<rparr> h
                 = Next (render v' h2, v')"
    using loop by (simp add: fold_stream_def a pcc rendered_def del: run_frames.simps)
  have runs: "run_updater ?u w (Some a') = Some (write_snapshot a' (?snap w) (isFirstUpdate w))"
    if "newArtifactIndex w = Some (Suc (length (contents a0)))" for w a'
    using that by (rule run_HighlightedMarkdown)
  have ix: "index (?snap w) = Suc (length (contents a0))" for w by simp
  from span_after_frame(2) [OF inv2 runs ix fresh]
  have inv3: "span_state ?u ?snap a0 (render v' h2, v')" by (simp add: rendered_def)
  have eag: "reserved a0 (render v' h2, v')" if e: "\<forall>k. eager (sched k)"
  proof -
    from fs f0(1) have g: "\<forall>f \<in> set (f0 # fs). \<not> generates f"
      by (auto simp: is_delta_of_def generates_def)
    from reserved_run_frames [OF reserved_initial [OF a p] g e, of d params ?pcc 0]
    have r: "reserved a0 (h2, v')" unfolding loop by simp
    then have "pending h2 = []" by (simp add: reserved_iff)
    with r show ?thesis by simp
  qed
  from span_state_end [OF inv3 flag] obtain a' where a': "artifact (render v' h2) = Some a'"
    "currentIndex a' = Suc (length (contents a0))"
    "contents a' = contents a0 \<or> contents a' = contents a0 @ [?snap v']"
    "reserved a0 (render v' h2, v') \<longrightarrow> contents a' = contents a0 @ [?snap v']"
    by auto
  from a'(4) eag have "(\<forall>k. eager (sched k)) \<longrightarrow> contents a' = contents a0 @ [?snap v']"
    by blast
  with whole mat a'(1,2,3) show ?thesis
    by (intro exI [of _ "render v' h2"] exI [of _ v'] exI [of _ a']) simp
qed

lemma highlighted_text_rechunk:
  assumes "artifact h = Some a0" and "pending h = []"
    and "prevCurrentContent (Some a0) = Some (Markdown i t c)"
    and "event f0 = ''on_chain_start''" and "langgraph_node f0 = ''updateHighlightedText''"
    and "input_highlightedText f0 = Some ht"
    and "fs \<noteq> []" and "\<forall>f \<in> set fs. is_delta_of ''updateHighlightedText'' f"
    and "gs \<noteq> []" and "\<forall>f \<in> set gs. is_delta_of ''updateHighlightedText'' f"
    and "concat (map delta_text fs) = concat (map delta_text gs)"
    and "\<forall>x \<in> set (contents a0). index x \<noteq> Suc (length (contents a0))"
  shows "\<exists>h1 v1 a1 h2 v2 a2.
           fold_stream d params sched \<lparr>frames = f0 # fs, fails = b\<rparr> h = Next (h1, v1)
           \<and> fold_stream d params sched' \<lparr>frames = f0 # gs, fails = b\<rparr> h = Next (h2, v2)
           \<and> materialized v1 = materialized v2
           \<and> artifact h1 = Some a1 \<and> artifact h2 = Some a2
           \<and> ((\<forall>k. eager (sched k)) \<and> (\<forall>k. eager (sched' k)) \<longrightarrow> a1 = a2)"
proof -
  let ?m = "\<lambda>xs. js_slice (hl_fullMarkdown ht) 0 (indexOf (hl_fullMarkdown ht) (markdownBlock ht))
           @ concat (map delta_text xs)
           @ js_slice_from (hl_fullMarkdown ht)
               (indexOf (hl_fullMarkdown ht) (markdownBlock ht) + int (length (markdownBlock ht)))"
  from highlighted_text_edit_fold [OF assms(1-8) assms(12), of d params sched b]
  obtain h1 v1 a1
    where 1: "fold_stream d params sched \<lparr>frames = f0 # fs, fails = b\<rparr> h = Next (h1, v1)"
      "materialized v1 = ?m fs" "artifact h1 = Some a1"
      "currentIndex a1 = Suc (length (contents a0))"
      "(\<forall>k. eager (sched k)) \<longrightarrow>
         contents a1 = contents a0 @ [Markdown (Suc (length (contents a0))) t (materialized v1)]"
    by blast
  from highlighted_text_edit_fold [OF assms(1-6) assms(9,10,12), of d params sched' b]
  obtain h2 v2 a2
    where 2: "fold_stream d params sched' \<lparr>frames = f0 # gs, fails = b\<rparr> h = Next (h2, v2)"
      "materialized v2 = ?m gs" "artifact h2 = Some a2"
      "currentIndex a2 = Suc (length (contents a0))"
      "(\<forall>k. eager (sched' k)) \<longrightarrow>
         contents a2 = contents a0 @ [Markdown (Suc (length (contents a0))) t (materialized v2)]"
    by blast
  from 1(2) 2(2) assms(11) have m: "materialized v1 = materialized v2" by simp
  have "a1 = a2" if "(\<forall>k. eager (sched k)) \<and> (\<forall>k. eager (sched' k))"
    using that 1(4,5) 2(4,5) m by simp
  with 1(1,3) 2(1,3) m show ?thesis by blast
qed

text \<open>
  The scenario of the specification for the highlighted-text edit: the block
  \<^verbatim>\<open>Hello world\<close> of the document is replaced by the deltas \<^verbatim>\<open>Hi\<close> and \<^verbatim>\<open> there\<close>.
\<close>

lemma highlighted_text_scenario:
  "artifact (fst (flow_state (fold_stream no_deps no_params at_once
       \<lparr>frames = [start_frame hello_highlight, stream_frame ''updateHighlightedText'' ''Hi'',
                  stream_frame ''updateHighlightedText'' '' there''],
        fails = False\<rparr> (hook_with text_artifact))))
     = Some \<lparr>currentIndex = 2,
             contents = [Markdown 1 ''Notes'' ''## Title\<newline>\<newline>Hello world'',
                         Markdown 2 ''Notes'' ''## Title\<newline>\<newline>Hi there'']\<rparr>"
  "materialized (snd (flow_state (fold_stream no_deps no_params next_render
       \<lparr>frames = [start_frame hello_highlight, stream_frame ''updateHighlightedText'' ''Hi'',
                  stream_frame ''updateHighlightedText'' '' there''],
        fails = False\<rparr> (hook_with text_artifact))))
     = ''## Title\<newline>\<newline>Hi there''"
  by (simp_all add: fold_defs frame_defs updateHighlightedText_delta_def init_text_span_def
      append_text_delta_def updateHighlightedMarkdown_def write_snapshot_def
      isArtifactMarkdownContent_def no_params_def hook_with_def empty_hook_def
      text_artifact_def hello_highlight_def indexOf_def js_slice_def js_slice_from_def
      slice_pos_def Let_def)

text \<open>
  C1 fails on the code for the ranged code edit: the content of its first valid delta is not
  appended to the prefix. For the code \<^verbatim>\<open>abc123xyz\<close> and the range from 3 to 6, the deltas
  \<^verbatim>\<open>X\<close> and \<^verbatim>\<open>Y\<close> give \<^verbatim>\<open>abcYxyz\<close> where the claim has \<^verbatim>\<open>abcXYxyz\<close>, and the
  same text in one delta \<^verbatim>\<open>XY\<close> gives \<^verbatim>\<open>abcxyz\<close>: the document depends on the chunks.
  These are the codes of the new snapshot when React runs the updaters at the call, and the
  materialized documents of the fold whenever React runs them.
\<close>

theorem ranged_edit_drops_first_delta:
  "artifact (fst (flow_state (fold_stream no_deps range_params at_once
       \<lparr>frames = [stream_frame ''updateArtifact'' ''X'', stream_frame ''updateArtifact'' ''Y''],
        fails = False\<rparr> (hook_with code_artifact))))
     = Some \<lparr>currentIndex = 2,
             contents = [Code 1 ''Demo'' ''abc123xyz'' ''javascript'',
                         Code 2 ''Demo'' ''abcYxyz'' ''javascript'']\<rparr>
   \<and> artifact (fst (flow_state (fold_stream no_deps range_params at_once
       \<lparr>frames = [stream_frame ''updateArtifact'' ''XY''], fails = False\<rparr>
       (hook_with code_artifact))))
     = Some \<lparr>currentIndex = 2,
             contents = [Code 1 ''Demo'' ''abc123xyz'' ''javascript'',
                         Code 2 ''Demo'' ''abcxyz'' ''javascript'']\<rparr>
   \<and> materialized (snd (flow_state (fold_stream no_deps range_params next_render
       \<lparr>frames = [stream_frame ''updateArtifact'' ''X'', stream_frame ''updateArtifact'' ''Y''],
        fails = False\<rparr> (hook_with code_artifact))))
     = ''abcYxyz''
   \<and> materialized (snd (flow_state (fold_stream no_deps range_params next_render
       \<lparr>frames = [stream_frame ''updateArtifact'' ''XY''], fails = False\<rparr>
       (hook_with code_artifact))))
     = ''abcxyz''"
  by (simp add: fold_defs frame_defs updateArtifact_delta_def step_code_span_def
      updateHighlightedCode_def write_snapshot_def range_params_def hook_with_def empty_hook_def
      code_artifact_def js_slice_def js_slice_from_def slice_pos_def strip_no_fence Let_def)





section \<open>Properties of the session switch\<close>

lemma run_id_of_shared_url: "run_id_of_url shared_url = Inr ''abc''"
  by (simp add: run_id_of_url_def js_split_def shared_url_def)

lemma shared_url_not_empty: "shared_url \<noteq> []"
  by (simp add: shared_url_def)

text \<open>
  C8 fails on the code. \<open>switchSelectedThread\<close> pushes the annotation onto every message
  with a shared-run URL, also onto one that carries the annotation already: such a message
  comes back with the annotation twice.
\<close>

theorem switchSelectedThread_duplicates_annotation:
  "switchSelectedThread conv annotated_thread empty_hook =
     (empty_hook\<lparr>effects := [SetThreadId ''t1'', SetCookie ''t1''],
        messages := [annotated_message\<lparr>tool_calls := Some [run_annotation, run_annotation]\<rparr>]\<rparr>,
      None)"
  by (simp add: switchSelectedThread_def annotated_thread_def attach_persisted_run_def
      annotated_message_def run_id_of_shared_url shared_url_not_empty run_annotation_def
      empty_hook_def)

text \<open>
  The other place that attaches the annotation, the promise of \<^verbatim>\<open>shareRun\<close>, looks for
  it first and leaves a message that has it alone.
\<close>

lemma attach_shared_run_guard:
  "has_run_annotation msg \<Longrightarrow> attach_shared_run url fid msg = Inr msg"
  by (simp add: attach_shared_run_def)

lemma attachSharedRun_keeps_annotated:
  "attachSharedRun (Some shared_url) (Some ''m1'') (empty_hook\<lparr>messages := [annotated_message]\<rparr>)
     = (empty_hook\<lparr>messages := [annotated_message]\<rparr>, None)"
  by (simp add: attachSharedRun_def attach_shared_run_def has_run_annotation_def
      annotated_message_def run_annotation_def empty_hook_def)
end
